theory Spec2Isabelle
  imports Main "HOL-Library.Word"
begin

unbundle bit_operations_syntax

section \<open>Bytes, errors and the library the code is linked against\<close>

type_synonym byte = "8 word"

type_synonym bytes = "byte list"

text \<open>
  Every error value the two source files can return, and the one panic they can raise
  (\<^verbatim>\<open>cipher.NewCTR\<close> panics when the IV is not of block size).
\<close>

datatype error =
    KeySizeError nat
  | PanicIVLength
  | EOF
  | ErrInvalid
  | ErrClosed
  | ErrBadDescriptor
  | ErrDevice
  | ErrNotExist
  | ErrRand
  | ErrMarshal
  | ErrUnmarshal
  | ErrReader
  | ErrWriter
  | errBadChecksum
  | ErrEncryptionKeyMismatch
  | ErrInvalidDataKeyID
  | Wrapf error string

text \<open>\<^verbatim>\<open>pb.DataKey\<close>: \<^verbatim>\<open>KeyId uint64\<close>, \<^verbatim>\<open>Data []byte\<close>,
  \<^verbatim>\<open>Iv []byte\<close>, \<^verbatim>\<open>CreatedAt int64\<close> (read with \<open>sint\<close>).\<close>

record DataKey =
  KeyId :: "64 word"
  Data :: bytes
  Iv :: bytes
  CreatedAt :: "64 word"

text \<open>
  The functions of the Go standard library and of the generated protobuf package that the
  source calls but does not contain are parameters of the model:
  \<^item> \<open>keystream key iv i\<close> is byte \<open>i\<close> of the AES-CTR key stream of \<open>key\<close> and \<open>iv\<close>;
  \<^item> \<open>crc32c\<close> is \<^verbatim>\<open>crc32.Checksum(_, y.CastagnoliCrcTable)\<close>;
  \<^item> \<open>pb_Marshal\<close> and \<open>pb_Unmarshal\<close> are the methods of \<^verbatim>\<open>pb.DataKey\<close>.
\<close>

record lib =
  keystream :: "bytes \<Rightarrow> bytes \<Rightarrow> nat \<Rightarrow> byte"
  crc32c :: "bytes \<Rightarrow> 32 word"
  pb_Marshal :: "DataKey \<Rightarrow> error + bytes"
  pb_Unmarshal :: "bytes \<Rightarrow> error + DataKey"

section \<open>The stream cipher (package y)\<close>

definition aes_BlockSize :: nat where
  "aes_BlockSize = 16"

text \<open>\<^verbatim>\<open>aes.NewCipher\<close> accepts keys of 16, 24 or 32 bytes and returns
  \<^verbatim>\<open>KeySizeError\<close> otherwise.\<close>

definition aes_key_ok :: "bytes \<Rightarrow> bool" where
  "aes_key_ok key = (length key = 16 \<or> length key = 24 \<or> length key = 32)"

text \<open>\<^verbatim>\<open>stream.XORKeyStream(dst, src)\<close> for a stream that has already produced
  \<open>pos\<close> bytes: the result is \<open>src\<close> xored with the next \<open>length src\<close> key stream bytes.\<close>

definition XORKeyStream :: "(nat \<Rightarrow> byte) \<Rightarrow> nat \<Rightarrow> bytes \<Rightarrow> bytes" where
  "XORKeyStream ks pos src = map2 (\<lambda>b i. b XOR ks i) src [pos ..< pos + length src]"

definition XORBlock :: "lib \<Rightarrow> bytes \<Rightarrow> bytes \<Rightarrow> bytes \<Rightarrow> error + bytes" where
  "XORBlock L src key iv =
     (if \<not> aes_key_ok key then Inl (KeySizeError (length key))
      else if length iv \<noteq> aes_BlockSize then Inl PanicIVLength
      else Inr (XORKeyStream (keystream L key iv) 0 src))"

text \<open>
  An \<^verbatim>\<open>io.Reader\<close> is the list of the results its successive \<^verbatim>\<open>Read\<close> calls
  give: the bytes delivered (at most the buffer's length is taken) and the error returned
  with them. A reader whose list is used up reports \<^verbatim>\<open>io.EOF\<close> with no bytes.
  An \<^verbatim>\<open>io.Writer\<close> is the bytes written so far and the number of \<^verbatim>\<open>Write\<close>
  calls that still succeed (\<open>None\<close>: all of them).
\<close>

datatype rerr = RNil | REOF | RErr

type_synonym reader = "(bytes \<times> rerr) list"

record writer =
  wbuf :: bytes
  wleft :: "nat option"

definition writer_Write :: "writer \<Rightarrow> bytes \<Rightarrow> error option \<times> writer" where
  "writer_Write w b =
     (case wleft w of
        None \<Rightarrow> (None, w\<lparr>wbuf := wbuf w @ b\<rparr>)
      | Some 0 \<Rightarrow> (Some ErrWriter, w)
      | Some (Suc n) \<Rightarrow> (None, w\<lparr>wbuf := wbuf w @ b, wleft := Some n\<rparr>))"

definition bufferSize :: nat where
  "bufferSize = 1024"

text \<open>
  The loop of \<^verbatim>\<open>XORReader\<close>. \<open>pos\<close> is the state of \<^verbatim>\<open>stream\<close>; \<open>bufIn\<close> and
  \<open>bufOut\<close> are the two buffers, which keep what earlier rounds left in them beyond
  \<open>bytesRead\<close>. The bytes handed to \<^verbatim>\<open>out.Write\<close> are \<^verbatim>\<open>bufIn[:bytesRead]\<close>.
\<close>

fun XORReader_loop ::
  "(nat \<Rightarrow> byte) \<Rightarrow> nat \<Rightarrow> bytes \<Rightarrow> bytes \<Rightarrow> reader \<Rightarrow> writer \<Rightarrow> error option \<times> writer" where
  "XORReader_loop ks pos bufIn bufOut [] w =
     (let bytesRead = 0;
          bufOut' = XORKeyStream ks pos (take bytesRead bufIn) @ drop bytesRead bufOut
      in writer_Write w (take bytesRead bufIn))"
| "XORReader_loop ks pos bufIn bufOut ((d, e) # rd) w =
     (let n = min (length d) (length bufIn);
          bufIn' = take n d @ drop n bufIn;
          bytesRead = n
      in if e = RErr then (Some ErrReader, w)
         else
           let bufOut' = XORKeyStream ks pos (take bytesRead bufIn') @ drop bytesRead bufOut;
               (wErr, w') = writer_Write w (take bytesRead bufIn')
           in if wErr \<noteq> None then (wErr, w')
              else if e = REOF then (None, w')
              else XORReader_loop ks (pos + bytesRead) bufIn' bufOut' rd w')"

definition XORReader :: "lib \<Rightarrow> reader \<Rightarrow> writer \<Rightarrow> bytes \<Rightarrow> bytes \<Rightarrow> error option \<times> writer" where
  "XORReader L rd out key iv =
     (if \<not> aes_key_ok key then (Some (KeySizeError (length key)), out)
      else if length iv \<noteq> aes_BlockSize then (Some PanicIVLength, out)
      else XORReader_loop (keystream L key iv) 0
             (replicate bufferSize 0) (replicate bufferSize 0) rd out)"

text \<open>The input stream a reader delivers to a buffer of \<open>n\<close> bytes: the pieces up to and
  including the first one that comes with \<^verbatim>\<open>io.EOF\<close>.\<close>

fun reader_bytes :: "nat \<Rightarrow> reader \<Rightarrow> bytes" where
  "reader_bytes n [] = []"
| "reader_bytes n ((d, e) # rd) =
     (if e = REOF then take n d else take n d @ reader_bytes n rd)"

text \<open>\<^verbatim>\<open>GenerateIV\<close>: \<^verbatim>\<open>rand.Read\<close> is one draw from the random source, a list of
  outcomes (\<open>None\<close>: the read fails; \<open>Some bs\<close>: the buffer is filled from \<open>bs\<close>).
  A source that is used up fails.\<close>

type_synonym rng = "bytes option list"

definition rand_Read :: "rng \<Rightarrow> nat \<Rightarrow> (bytes \<times> error option) \<times> rng" where
  "rand_Read r n =
     (case r of
        [] \<Rightarrow> ((replicate n 0, Some ErrRand), [])
      | None # r' \<Rightarrow> ((replicate n 0, Some ErrRand), r')
      | Some bs # r' \<Rightarrow> ((take n (bs @ replicate n 0), None), r'))"

definition GenerateIV :: "rng \<Rightarrow> (bytes \<times> error option) \<times> rng" where
  "GenerateIV r = rand_Read r aes_BlockSize"

section \<open>Files\<close>

text \<open>
  The file system maps a path to the file's bytes. A \<^verbatim>\<open>*os.File\<close> is \<open>None\<close>
  (the nil pointer) or a handle: the path it was opened on, the offset of the next read or
  write, whether it was opened for writing, and whether it has been closed.
\<close>

type_synonym fsys = "string \<rightharpoonup> bytes"

record handle =
  hpath :: string
  hpos :: nat
  hwritable :: bool
  hclosed :: bool

type_synonym File = "handle option"

definition file_bytes :: "fsys \<Rightarrow> handle \<Rightarrow> bytes" where
  "file_bytes fs h = (case fs (hpath h) of None \<Rightarrow> [] | Some c \<Rightarrow> c)"

text \<open>
  \<^verbatim>\<open>(*os.File).Read(buf)\<close> on a regular file: a nil file gives
  \<^verbatim>\<open>os.ErrInvalid\<close>, a closed one \<^verbatim>\<open>os.ErrClosed\<close>; a buffer of length 0
  gives \<open>(0, nil)\<close>; at the end of the file the result is \<open>(0, io.EOF)\<close>; otherwise
  the bytes that are there, at most \<open>length buf\<close>, are copied to the front of the
  buffer and the error is nil, also when fewer than \<open>length buf\<close> were left.
  The result is the buffer, the count and the error.
\<close>

definition file_Read :: "fsys \<Rightarrow> File \<Rightarrow> bytes \<Rightarrow> (bytes \<times> nat \<times> error option) \<times> File" where
  "file_Read fs f buf =
     (case f of
        None \<Rightarrow> ((buf, 0, Some ErrInvalid), f)
      | Some h \<Rightarrow>
          if hclosed h then ((buf, 0, Some ErrClosed), f)
          else if length buf = 0 then ((buf, 0, None), f)
          else
            let avail = drop (hpos h) (file_bytes fs h);
                n = min (length buf) (length avail)
            in if n = 0 then ((buf, 0, Some EOF), f)
               else ((take n avail @ drop n buf, n, None), Some (h\<lparr>hpos := hpos h + n\<rparr>)))"

text \<open>
  \<^verbatim>\<open>(*os.File).Write(b)\<close>: fails on a nil or closed file, on a file opened
  read-only (\<^verbatim>\<open>EBADF\<close>) and when the device refuses the write (\<open>dev_fail\<close>);
  otherwise the bytes are stored at the handle's offset, which moves on.
\<close>

definition file_Write :: "fsys \<Rightarrow> bool \<Rightarrow> File \<Rightarrow> bytes \<Rightarrow> error option \<times> fsys \<times> File" where
  "file_Write fs dev_fail f b =
     (case f of
        None \<Rightarrow> (Some ErrInvalid, fs, f)
      | Some h \<Rightarrow>
          if hclosed h then (Some ErrClosed, fs, f)
          else if \<not> hwritable h then (Some ErrBadDescriptor, fs, f)
          else if dev_fail then (Some ErrDevice, fs, f)
          else
            let c = file_bytes fs h;
                c' = take (hpos h) c @ replicate (hpos h - length c) 0 @ b
                       @ drop (hpos h + length b) c
            in (None, fs(hpath h \<mapsto> c'), Some (h\<lparr>hpos := hpos h + length b\<rparr>)))"

text \<open>\<^verbatim>\<open>(*os.File).Close()\<close>: \<^verbatim>\<open>os.ErrInvalid\<close> on the nil file,
  \<^verbatim>\<open>os.ErrClosed\<close> on a closed one.\<close>

definition file_Close :: "File \<Rightarrow> error option \<times> File" where
  "file_Close f =
     (case f of
        None \<Rightarrow> (Some ErrInvalid, f)
      | Some h \<Rightarrow>
          if hclosed h then (Some ErrClosed, f)
          else (None, Some (h\<lparr>hclosed := True\<rparr>)))"

section \<open>The record codec\<close>

text \<open>\<^verbatim>\<open>binary.BigEndian.PutUint32\<close> and \<^verbatim>\<open>binary.BigEndian.Uint32\<close>. The source
  applies both to slices of four bytes only.\<close>

definition PutUint32 :: "32 word \<Rightarrow> bytes" where
  "PutUint32 v = [ucast (drop_bit 24 v), ucast (drop_bit 16 v), ucast (drop_bit 8 v), ucast v]"

definition Uint32 :: "bytes \<Rightarrow> 32 word" where
  "Uint32 b =
     (push_bit 24 (ucast (b ! 0)) OR push_bit 16 (ucast (b ! 1))
        OR push_bit 8 (ucast (b ! 2)) OR ucast (b ! 3))"

text \<open>
  The closure \<^verbatim>\<open>xor\<close> of \<^verbatim>\<open>storeDataKey\<close>: with a storage key it assigns
  the result of \<^verbatim>\<open>XORBlock\<close> to \<^verbatim>\<open>k.Data\<close>, which is nil when
  \<^verbatim>\<open>XORBlock\<close> returns an error; a panic leaves \<^verbatim>\<open>k\<close> as it was.
\<close>

definition xor_DataKey :: "lib \<Rightarrow> bytes \<Rightarrow> DataKey \<Rightarrow> error option \<times> DataKey" where
  "xor_DataKey L storageKey k =
     (if length storageKey = 0 then (None, k)
      else case XORBlock L (Data k) storageKey (Iv k) of
             Inl e \<Rightarrow> (Some e, if e = PanicIVLength then k else k\<lparr>Data := []\<rparr>)
           | Inr d \<Rightarrow> (None, k\<lparr>Data := d\<rparr>))"

text \<open>\<^verbatim>\<open>storeDataKey(buf, storageKey, k)\<close>: the error, the buffer and the
  \<^verbatim>\<open>DataKey\<close> behind the pointer \<^verbatim>\<open>k\<close> after the call.\<close>

definition storeDataKey :: "lib \<Rightarrow> bytes \<Rightarrow> bytes \<Rightarrow> DataKey \<Rightarrow> error option \<times> bytes \<times> DataKey" where
  "storeDataKey L buf storageKey k =
     (case xor_DataKey L storageKey k of
        (Some e, k1) \<Rightarrow> (Some e, buf, k1)
      | (None, k1) \<Rightarrow>
          (case pb_Marshal L k1 of
             Inl e \<Rightarrow> (Some e, buf, k1)
           | Inr data \<Rightarrow>
               let lenCrcBuf = PutUint32 (of_nat (length data)) @ PutUint32 (crc32c L data);
                   buf1 = buf @ lenCrcBuf;
                   buf2 = buf1 @ data;
                   (err, k2) = xor_DataKey L storageKey k1
               in (err, buf2, k2)))"

section \<open>The registry file iterator\<close>

definition sanityText :: bytes where
  "sanityText = map (of_nat \<circ> of_char) ''Hello Badger''"

text \<open>\<^verbatim>\<open>lenCrcBuf\<close> is a \<^verbatim>\<open>[8]byte\<close> array; \<open>arr8\<close> gives a byte list that length.\<close>

record keyRegistryIterator =
  encryptionKey :: bytes
  it_fp :: File
  lenCrcBuf :: bytes

definition arr8 :: "bytes \<Rightarrow> bytes" where
  "arr8 b = take 8 b @ replicate (8 - length b) 0"

definition isEOF :: "error option \<Rightarrow> error option" where
  "isEOF err = (if err = Some EOF then None else err)"

definition isValidRegistry :: "lib \<Rightarrow> fsys \<Rightarrow> File \<Rightarrow> bytes \<Rightarrow> error option \<times> File" where
  "isValidRegistry L fs fp key =
     (let ((iv, _, err), fp1) = file_Read fs fp (replicate aes_BlockSize 0)
      in case err of
           Some e \<Rightarrow> (Some (Wrapf e ''Error while reading IV for ket registry.''), fp1)
         | None \<Rightarrow>
             let ((eSanityText, _, err2), fp2) =
                   file_Read fs fp1 (replicate (length sanityText) 0)
             in case err2 of
                  Some e \<Rightarrow> (Some e, fp2)
                | None \<Rightarrow>
                    if length key > 0 then
                      (case XORBlock L eSanityText key iv of
                         Inl e \<Rightarrow> (Some e, fp2)
                       | Inr d \<Rightarrow>
                           if d \<noteq> sanityText then (Some ErrEncryptionKeyMismatch, fp2)
                           else (None, fp2))
                    else if eSanityText \<noteq> sanityText then (Some ErrEncryptionKeyMismatch, fp2)
                    else (None, fp2))"

definition newKeyRegistryIterator ::
  "lib \<Rightarrow> fsys \<Rightarrow> File \<Rightarrow> bytes \<Rightarrow> keyRegistryIterator \<times> error option" where
  "newKeyRegistryIterator L fs fp key =
     (let (err, fp') = isValidRegistry L fs fp key
      in (\<lparr>encryptionKey = key, it_fp = fp', lenCrcBuf = replicate 8 0\<rparr>, err))"

text \<open>\<^verbatim>\<open>(*keyRegistryIterator).Next()\<close>: the pair the method returns and the
  iterator after the call.\<close>

definition Next ::
  "lib \<Rightarrow> fsys \<Rightarrow> keyRegistryIterator \<Rightarrow> (DataKey option \<times> error option) \<times> keyRegistryIterator" where
  "Next L fs kri =
     (let ((hdr, _, err), fp1) = file_Read fs (it_fp kri) (arr8 (lenCrcBuf kri));
          kri1 = kri\<lparr>it_fp := fp1, lenCrcBuf := hdr\<rparr>
      in if err \<noteq> None then ((None, isEOF err), kri1)
         else
           let l = unat (Uint32 (take 4 hdr));
               ((data, _, err2), fp2) = file_Read fs fp1 (replicate l 0);
               kri2 = kri1\<lparr>it_fp := fp2\<rparr>
           in if err2 \<noteq> None then ((None, isEOF err2), kri2)
              else if crc32c L data \<noteq> Uint32 (drop 4 hdr) then ((None, Some errBadChecksum), kri2)
              else
                (case pb_Unmarshal L data of
                   Inl e \<Rightarrow> ((None, Some e), kri2)
                 | Inr dataKey \<Rightarrow>
                     if length (encryptionKey kri) > 0 then
                       (case XORBlock L (Data dataKey) (encryptionKey kri) (Iv dataKey) of
                          Inl e \<Rightarrow> ((None, Some e), kri2)
                        | Inr d \<Rightarrow> ((Some (dataKey\<lparr>Data := d\<rparr>), None), kri2))
                     else ((Some dataKey, None), kri2)))"

section \<open>The key registry\<close>

text \<open>The fields of \<^verbatim>\<open>Options\<close> that the registry reads. The rotation duration is a
  \<^verbatim>\<open>time.Duration\<close>: nanoseconds, an \<^verbatim>\<open>int64\<close>.\<close>

record Options =
  Dir :: string
  ReadOnly :: bool
  EncryptionKey :: bytes
  EncryptionKeyRotationDuration :: "64 word"

record KeyRegistry =
  dataKeys :: "64 word \<rightharpoonup> DataKey"
  lastCreated :: "64 word"
  nextKeyID :: "64 word"
  fp :: File
  opt :: Options

definition newKeyRegistry :: "Options \<Rightarrow> KeyRegistry" where
  "newKeyRegistry op =
     \<lparr>dataKeys = Map.empty, lastCreated = 0, nextKeyID = 0, fp = None, opt = op\<rparr>"

text \<open>The bytes between the offset of a file and its end.\<close>

definition remaining :: "fsys \<Rightarrow> File \<Rightarrow> nat" where
  "remaining fs f = (case f of None \<Rightarrow> 0 | Some h \<Rightarrow> length (file_bytes fs h) - hpos h)"

lemma file_Read_remaining_le:
  "file_Read fs f buf = (r, f') \<Longrightarrow> remaining fs f' \<le> remaining fs f"
  by (auto simp: file_Read_def remaining_def file_bytes_def Let_def split: option.splits if_splits)

lemma file_Read_remaining_less:
  "file_Read fs f buf = ((b, n, None), f') \<Longrightarrow> buf \<noteq> [] \<Longrightarrow> remaining fs f' < remaining fs f"
  by (cases buf)
     (auto simp: file_Read_def remaining_def file_bytes_def Let_def min_def split: option.splits if_splits)

lemma file_Read_length:
  "file_Read fs f buf = ((b, n, e), f') \<Longrightarrow> length b = length buf"
  by (auto simp: file_Read_def Let_def min_def split: option.splits if_splits)

lemma Next_progress:
  assumes "Next L fs kri = ((Some d, None), kri')"
  shows "remaining fs (it_fp kri') < remaining fs (it_fp kri)"
proof -
  obtain hdr n1 e1 fp1 where
    r1: "file_Read fs (it_fp kri) (arr8 (lenCrcBuf kri)) = ((hdr, n1, e1), fp1)"
    by (metis prod_cases3 surj_pair)
  obtain data n2 e2 fp2 where
    r2: "file_Read fs fp1 (replicate (unat (Uint32 (take 4 hdr))) 0) = ((data, n2, e2), fp2)"
    by (metis prod_cases3 surj_pair)
  from assms r1 r2 have e1: "e1 = None" and fp: "it_fp kri' = fp2"
    by (auto simp: Next_def Let_def split: if_splits sum.splits)
  have "arr8 (lenCrcBuf kri) \<noteq> []"
    by (auto simp: arr8_def)
  with r1 e1 have "remaining fs fp1 < remaining fs (it_fp kri)"
    by (auto dest: file_Read_remaining_less)
  moreover from r2 have "remaining fs fp2 \<le> remaining fs fp1"
    by (rule file_Read_remaining_le)
  ultimately show ?thesis using fp by simp
qed

text \<open>
  The body of the loop of \<^verbatim>\<open>readKeyRegistry\<close> for one decoded key \<open>dk\<close>: the key is
  stored under \<^verbatim>\<open>kr.nextKeyID\<close>.
\<close>

definition replay_DataKey :: "KeyRegistry \<Rightarrow> DataKey \<Rightarrow> KeyRegistry" where
  "replay_DataKey kr dk =
     (let kr1 = (if KeyId dk > nextKeyID kr then kr\<lparr>nextKeyID := KeyId dk\<rparr> else kr);
          kr2 = (if sint (CreatedAt dk) > sint (lastCreated kr1)
                 then kr1\<lparr>lastCreated := CreatedAt dk\<rparr> else kr1)
      in kr2\<lparr>dataKeys := (dataKeys kr2)(nextKeyID kr2 \<mapsto> dk)\<rparr>)"

text \<open>
  The loop of \<^verbatim>\<open>readKeyRegistry\<close>, from a call of \<^verbatim>\<open>itr.Next()\<close> to the test
  \<^verbatim>\<open>err == nil && dk != nil\<close> and the body.
\<close>

function readKeyRegistry_loop ::
  "lib \<Rightarrow> fsys \<Rightarrow> keyRegistryIterator \<Rightarrow> KeyRegistry
     \<Rightarrow> (KeyRegistry \<times> error option) \<times> keyRegistryIterator" where
  "readKeyRegistry_loop L fs itr kr =
     (case Next L fs itr of
        ((Some dk, None), itr') \<Rightarrow> readKeyRegistry_loop L fs itr' (replay_DataKey kr dk)
      | ((_, err), itr') \<Rightarrow> ((kr, err), itr'))"
  by pat_completeness auto

termination
  by (relation "measure (\<lambda>(L, fs, itr, kr). remaining fs (it_fp itr))")
     (auto intro: Next_progress [OF sym])

declare readKeyRegistry_loop.simps [simp del]

definition readKeyRegistry ::
  "lib \<Rightarrow> fsys \<Rightarrow> File \<Rightarrow> Options \<Rightarrow> (KeyRegistry option \<times> error option) \<times> File" where
  "readKeyRegistry L fs f op =
     (case newKeyRegistryIterator L fs f (EncryptionKey op) of
        (itr, Some e) \<Rightarrow> ((None, Some e), it_fp itr)
      | (itr, None) \<Rightarrow>
          (case readKeyRegistry_loop L fs itr (newKeyRegistry op) of
             ((kr, err), itr') \<Rightarrow> ((Some kr, err), it_fp itr')))"

definition dataKey :: "KeyRegistry \<Rightarrow> 64 word \<Rightarrow> error + DataKey option" where
  "dataKey kr kid =
     (if kid = 0 then Inr None
      else case dataKeys kr kid of
             None \<Rightarrow> Inl (Wrapf ErrInvalidDataKeyID ''Error for the KEY ID %d'')
           | Some dk \<Rightarrow> Inr (Some dk))"

text \<open>
  The world outside the registry: the file system, the random source and whether the
  device refuses writes.
\<close>

record world =
  fs_of :: fsys
  rnd :: rng
  dev_fail :: bool

text \<open>
  \<^verbatim>\<open>time.Since(time.Unix(sec, 0))\<close> when the clock reads \<open>now\<close> nanoseconds after
  the epoch: the difference, kept within the range of a \<^verbatim>\<open>time.Duration\<close> as
  \<^verbatim>\<open>Time.Sub\<close> does. \<^verbatim>\<open>time.Now().Unix()\<close> is the clock in whole seconds.
\<close>

definition time_Since :: "int \<Rightarrow> 64 word \<Rightarrow> int" where
  "time_Since now sec =
     (let d = now - sint sec * 1000000000
      in if d > 2 ^ 63 - 1 then 2 ^ 63 - 1 else if d < - (2 ^ 63) then - (2 ^ 63) else d)"

definition time_Unix :: "int \<Rightarrow> 64 word" where
  "time_Unix now = of_int (now div 1000000000)"

text \<open>
  \<^verbatim>\<open>(*KeyRegistry).latestDataKey()\<close>. \<open>t1\<close> is the clock at \<^verbatim>\<open>time.Since\<close>,
  \<open>t2\<close> the clock at \<^verbatim>\<open>time.Now()\<close> in the new key. The result is the pair the
  method returns, the world and the registry after the call.
\<close>

definition latestDataKey ::
  "lib \<Rightarrow> int \<Rightarrow> int \<Rightarrow> world \<Rightarrow> KeyRegistry
     \<Rightarrow> (DataKey option \<times> error option) \<times> world \<times> KeyRegistry" where
  "latestDataKey L t1 t2 w kr =
     (if length (EncryptionKey (opt kr)) = 0 then ((None, None), w, kr)
      else
        let diff = time_Since t1 (lastCreated kr)
        in if diff < sint (EncryptionKeyRotationDuration (opt kr))
           then ((dataKeys kr (nextKeyID kr), None), w, kr)
           else
             let kr1 = kr\<lparr>nextKeyID := nextKeyID kr + 1\<rparr>;
                 ((iv, err), r1) = GenerateIV (rnd w);
                 w1 = w\<lparr>rnd := r1\<rparr>
             in if err \<noteq> None then ((None, err), w1, kr1)
                else
                  let ((k, err2), r2) = rand_Read r1 (length (EncryptionKey (opt kr)));
                      w2 = w1\<lparr>rnd := r2\<rparr>
                  in if err2 \<noteq> None then ((None, err2), w2, kr1)
                     else
                       let dk = \<lparr>KeyId = nextKeyID kr1, Data = k, Iv = iv,
                                  CreatedAt = time_Unix t2\<rparr>;
                           (err3, buf, dk1) = storeDataKey L [] (EncryptionKey (opt kr)) dk
                       in if err3 \<noteq> None then ((None, err3), w2, kr1)
                          else
                            let (err4, fs', fp') =
                                  file_Write (fs_of w2) (dev_fail w2) (fp kr1) buf;
                                w3 = w2\<lparr>fs_of := fs'\<rparr>;
                                kr2 = kr1\<lparr>fp := fp'\<rparr>
                            in if err4 \<noteq> None then ((None, err4), w3, kr2)
                               else
                                 let dk2 = dk1\<lparr>Data := k\<rparr>;
                                     kr3 = kr2\<lparr>lastCreated := CreatedAt dk2,
                                             dataKeys := (dataKeys kr2)(nextKeyID kr2 \<mapsto> dk2)\<rparr>
                                 in ((Some dk2, None), w3, kr3))"

text \<open>\<^verbatim>\<open>(*KeyRegistry).Close()\<close>.\<close>

definition Close :: "KeyRegistry \<Rightarrow> error option \<times> KeyRegistry" where
  "Close kr = (let (err, f) = file_Close (fp kr) in (err, kr\<lparr>fp := f\<rparr>))"

section \<open>Writing and opening the registry file\<close>

definition KeyRegistryFileName :: string where
  "KeyRegistryFileName = ''KEYREGISTRY''"

definition KeyRegistryRewriteFileName :: string where
  "KeyRegistryRewriteFileName = ''REWRITE-KEYREGISTRY''"

text \<open>\<^verbatim>\<open>filepath.Join\<close> of a directory and a file name.\<close>

definition filepath_Join :: "string \<Rightarrow> string \<Rightarrow> string" where
  "filepath_Join d n = d @ ''/'' @ n"

text \<open>
  Modelled from the spec: \<^verbatim>\<open>y.OpenExistingFile\<close>, which is not among the sources.
  It opens a file that exists and fails with a not-exist error otherwise; with the
  read-only flag ``the registry opens without write access''.
\<close>

definition OpenExistingFile :: "fsys \<Rightarrow> string \<Rightarrow> bool \<Rightarrow> File \<times> error option" where
  "OpenExistingFile fs path ro =
     (case fs path of
        None \<Rightarrow> (None, Some ErrNotExist)
      | Some c \<Rightarrow> (Some \<lparr>hpath = path, hpos = 0, hwritable = \<not> ro, hclosed = False\<rparr>, None))"

text \<open>
  Modelled from the spec: \<^verbatim>\<open>y.OpenTruncFile\<close>, which is not among the sources
  (``open a new temporary file in the same directory''). The file is created empty, or
  emptied, and opened for writing.
\<close>

definition OpenTruncFile :: "world \<Rightarrow> string \<Rightarrow> (File \<times> error option) \<times> world" where
  "OpenTruncFile w path =
     (if dev_fail w then ((None, Some ErrDevice), w)
      else ((Some \<lparr>hpath = path, hpos = 0, hwritable = True, hclosed = False\<rparr>, None),
            w\<lparr>fs_of := (fs_of w)(path \<mapsto> [])\<rparr>))"

text \<open>\<^verbatim>\<open>os.Rename\<close>: the new path gets the file of the old one.\<close>

definition os_Rename :: "fsys \<Rightarrow> string \<Rightarrow> string \<Rightarrow> error option \<times> fsys" where
  "os_Rename fs old new =
     (case fs old of
        None \<Rightarrow> (Some ErrNotExist, fs)
      | Some c \<Rightarrow> (None, (fs(old := None))(new \<mapsto> c)))"

text \<open>
  Modelled from the spec: \<^verbatim>\<open>syncDir\<close>, which is not among the sources, ``an opaque
  flush directory entry operation''. It changes no file's bytes.
\<close>

definition syncDir :: "string \<Rightarrow> error option" where
  "syncDir d = None"

text \<open>
  The loop of \<^verbatim>\<open>WriteKeyRegistry\<close> over \<^verbatim>\<open>reg.dataKeys\<close>. Go ranges over a map
  in an order of its own choosing: \<open>ids\<close> is that order. \<^verbatim>\<open>storeDataKey\<close> works on
  the keys of the registry through their pointers, so the map is returned too.
\<close>

fun WriteKeyRegistry_loop ::
  "lib \<Rightarrow> bytes \<Rightarrow> 64 word list \<Rightarrow> bytes \<Rightarrow> (64 word \<rightharpoonup> DataKey)
     \<Rightarrow> error option \<times> bytes \<times> (64 word \<rightharpoonup> DataKey)" where
  "WriteKeyRegistry_loop L key [] buf m = (None, buf, m)"
| "WriteKeyRegistry_loop L key (i # ids) buf m =
     (case m i of
        None \<Rightarrow> WriteKeyRegistry_loop L key ids buf m
      | Some k \<Rightarrow>
          (case storeDataKey L buf key k of
             (Some e, buf', k') \<Rightarrow> (Some e, buf', m(i \<mapsto> k'))
           | (None, buf', k') \<Rightarrow> WriteKeyRegistry_loop L key ids buf' (m(i \<mapsto> k'))))"

definition WriteKeyRegistry ::
  "lib \<Rightarrow> world \<Rightarrow> KeyRegistry \<Rightarrow> Options \<Rightarrow> 64 word list
     \<Rightarrow> error option \<times> world \<times> KeyRegistry" where
  "WriteKeyRegistry L w reg op ids =
     (let tmpPath = filepath_Join (Dir op) KeyRegistryRewriteFileName
      in case OpenTruncFile w tmpPath of
           ((f, Some e), w1) \<Rightarrow> (Some e, w1, reg)
         | ((f, None), w1) \<Rightarrow>
             let ((iv, err), r1) = GenerateIV (rnd w1);
                 w2 = w1\<lparr>rnd := r1\<rparr>
             in if err \<noteq> None then (err, w2, reg)
                else
                  (case (if length (EncryptionKey op) > 0
                         then XORBlock L sanityText (EncryptionKey op) iv
                         else Inr sanityText) of
                     Inl e \<Rightarrow> (Some e, w2, reg)
                   | Inr eSanity \<Rightarrow>
                       (case WriteKeyRegistry_loop L (EncryptionKey op) ids (iv @ eSanity)
                               (dataKeys reg) of
                          (Some e, buf, m) \<Rightarrow> (Some e, w2, reg\<lparr>dataKeys := m\<rparr>)
                        | (None, buf, m) \<Rightarrow>
                            let reg' = reg\<lparr>dataKeys := m\<rparr>;
                                (err2, fs2, f2) = file_Write (fs_of w2) (dev_fail w2) f buf;
                                w3 = w2\<lparr>fs_of := fs2\<rparr>
                            in if err2 \<noteq> None then (err2, w3, reg')
                               else
                                 let (err3, f3) = file_Close f2
                                 in if err3 \<noteq> None then (err3, w3, reg')
                                    else
                                      let (err4, fs4) =
                                            os_Rename (fs_of w3) tmpPath
                                              (filepath_Join (Dir op) KeyRegistryFileName);
                                          w4 = w3\<lparr>fs_of := fs4\<rparr>
                                      in if err4 \<noteq> None then (err4, w4, reg')
                                         else (syncDir (Dir op), w4, reg'))))"

text \<open>The end of \<^verbatim>\<open>OpenKeyRegistry\<close>, from the call of \<^verbatim>\<open>readKeyRegistry\<close>.\<close>

definition OpenKeyRegistry_read ::
  "lib \<Rightarrow> world \<Rightarrow> File \<Rightarrow> Options \<Rightarrow> (KeyRegistry option \<times> error option) \<times> world" where
  "OpenKeyRegistry_read L w f op =
     (case readKeyRegistry L (fs_of w) f op of
        ((kr, Some e), f') \<Rightarrow> ((None, Some e), w)
      | ((None, None), f') \<Rightarrow> ((None, None), w)
      | ((Some kr, None), f') \<Rightarrow> ((Some (kr\<lparr>fp := f'\<rparr>), None), w))"

definition OpenKeyRegistry ::
  "lib \<Rightarrow> world \<Rightarrow> Options \<Rightarrow> (KeyRegistry option \<times> error option) \<times> world" where
  "OpenKeyRegistry L w op =
     (let path = filepath_Join (Dir op) KeyRegistryFileName
      in case OpenExistingFile (fs_of w) path (ReadOnly op) of
           (f, Some e) \<Rightarrow>
             if e = ErrNotExist then
               let kr = newKeyRegistry op
               in if ReadOnly op then ((Some kr, None), w)
                  else
                    (case WriteKeyRegistry L w kr op [] of
                       (Some e', w1, _) \<Rightarrow>
                         ((None, Some (Wrapf e' ''Error while writing key registry.'')), w1)
                     | (None, w1, _) \<Rightarrow>
                         (case OpenExistingFile (fs_of w1) path (ReadOnly op) of
                            (f2, Some e2) \<Rightarrow> ((None, Some e2), w1)
                          | (f2, None) \<Rightarrow> OpenKeyRegistry_read L w1 f2 op))
             else ((None, Some (Wrapf e ''Error while opening key registry.'')), w)
         | (f, None) \<Rightarrow> OpenKeyRegistry_read L w f op)"

section \<open>Sequences of calls\<close>

text \<open>A sequence of calls of \<^verbatim>\<open>latestDataKey\<close>, one for each pair of clock readings,
  with what each call returned.\<close>

fun latestDataKey_calls ::
  "lib \<Rightarrow> (int \<times> int) list \<Rightarrow> world \<Rightarrow> KeyRegistry
     \<Rightarrow> (DataKey option \<times> error option) list \<times> world \<times> KeyRegistry" where
  "latestDataKey_calls L [] w kr = ([], w, kr)"
| "latestDataKey_calls L ((t1, t2) # ts) w kr =
     (case latestDataKey L t1 t2 w kr of
        (r, w1, kr1) \<Rightarrow>
          (case latestDataKey_calls L ts w1 kr1 of
             (rs, w2, kr2) \<Rightarrow> (r # rs, w2, kr2)))"

text \<open>A file that \<^verbatim>\<open>Write\<close> cannot write to: nil, or opened read-only.\<close>

definition no_write_access :: "File \<Rightarrow> bool" where
  "no_write_access f = (case f of None \<Rightarrow> True | Some h \<Rightarrow> \<not> hwritable h)"

section \<open>A small instance of the library, to run the model on concrete inputs\<close>

text \<open>
  A key stream whose byte \<open>i\<close> is \<open>i + 1\<close> plus the bytes of the key and of the IV,
  the sum of the bytes as checksum, and a record layout of one byte each for the key ID,
  the creation time and the IV's length, then the IV and the key material.
\<close>

definition sample_Marshal :: "DataKey \<Rightarrow> error + bytes" where
  "sample_Marshal k =
     Inr ([ucast (KeyId k), ucast (CreatedAt k), of_nat (length (Iv k))] @ Iv k @ Data k)"

fun sample_Unmarshal :: "bytes \<Rightarrow> error + DataKey" where
  "sample_Unmarshal (a # b # n # rest) =
     Inr \<lparr>KeyId = ucast a, Data = drop (unat n) rest, Iv = take (unat n) rest,
          CreatedAt = ucast b\<rparr>"
| "sample_Unmarshal _ = Inl ErrUnmarshal"

definition sample_lib :: lib where
  "sample_lib =
     \<lparr>keystream = (\<lambda>key iv i. of_nat (i + 1) + sum_list key + sum_list iv),
      crc32c = (\<lambda>d. sum_list (map ucast d)),
      pb_Marshal = sample_Marshal,
      pb_Unmarshal = sample_Unmarshal\<rparr>"

section \<open>Sample values\<close>

text \<open>A data key, options with a storage key of sixteen bytes and a rotation period of ten
  seconds, a registry holding the key with no file behind it, and a world with no file.\<close>

definition sample_key :: DataKey where
  "sample_key = \<lparr>KeyId = 7, Data = [1, 2, 3], Iv = replicate 16 9, CreatedAt = 100\<rparr>"

definition sample_Options :: Options where
  "sample_Options =
     \<lparr>Dir = ''db'', ReadOnly = False, EncryptionKey = replicate 16 0,
      EncryptionKeyRotationDuration = 10000000000\<rparr>"

definition sample_registry :: KeyRegistry where
  "sample_registry =
     \<lparr>dataKeys = [7 \<mapsto> sample_key], lastCreated = 100, nextKeyID = 7, fp = None,
      opt = sample_Options\<rparr>"

definition sample_world :: world where
  "sample_world = \<lparr>fs_of = Map.empty, rnd = [], dev_fail = False\<rparr>"

text \<open>The same options with the read-only flag set, and a world with no file and the random
  bytes of one IV and one key.\<close>

definition readonly_Options :: Options where
  "readonly_Options = sample_Options\<lparr>ReadOnly := True\<rparr>"

definition readonly_world :: world where
  "readonly_world =
     \<lparr>fs_of = Map.empty, rnd = [Some (replicate 16 1), Some (replicate 16 2)], dev_fail = False\<rparr>"

text \<open>A directory whose registry file holds the 28 bytes of a header, with the random bytes of
  two keys, and a registry opened on that file for appending, at its end.\<close>

definition rotation_world :: world where
  "rotation_world =
     \<lparr>fs_of = [''db/KEYREGISTRY'' \<mapsto> replicate 28 0],
      rnd = [Some (replicate 16 1), Some (replicate 16 2), Some (replicate 16 3),
             Some (replicate 16 4)],
      dev_fail = False\<rparr>"

definition rotation_registry :: KeyRegistry where
  "rotation_registry =
     \<lparr>dataKeys = Map.empty, lastCreated = 0, nextKeyID = 0,
      fp = Some \<lparr>hpath = ''db/KEYREGISTRY'', hpos = 28, hwritable = True, hclosed = False\<rparr>,
      opt = sample_Options\<rparr>"

text \<open>Options with no storage key; a registry file of a header and two records, whose stored
  key IDs are 2 and then 1; a handle at the start of that file and an iterator at its end.\<close>

definition plain_Options :: Options where
  "plain_Options =
     \<lparr>Dir = ''db'', ReadOnly = False, EncryptionKey = [],
      EncryptionKeyRotationDuration = 10000000000\<rparr>"

definition two_record_file :: bytes where
  "two_record_file =
     replicate 16 0 @ sanityText
       @ [0, 0, 0, 3, 0, 0, 0, 7, 2, 5, 0]
       @ [0, 0, 0, 3, 0, 0, 0, 7, 1, 6, 0]"

definition registry_handle :: handle where
  "registry_handle = \<lparr>hpath = ''db/KEYREGISTRY'', hpos = 0, hwritable = True, hclosed = False\<rparr>"

definition end_iterator :: keyRegistryIterator where
  "end_iterator =
     \<lparr>encryptionKey = [], it_fp = Some (registry_handle\<lparr>hpos := 50\<rparr>),
      lenCrcBuf = [0, 0, 0, 3, 0, 0, 0, 7]\<rparr>"

text \<open>The record that \<^verbatim>\<open>storeDataKey\<close> builds for the sample key, with and without a storage key.\<close>

definition sample_record :: bytes where
  "sample_record = fst (snd (storeDataKey sample_lib [] (replicate 16 0) sample_key))"

definition plain_record :: bytes where
  "plain_record = fst (snd (storeDataKey sample_lib [] [] sample_key))"

section \<open>Looking a key up by its ID\<close>

text \<open>
  Claim C8. \<^verbatim>\<open>dataKey(0)\<close> returns the nil key and no error, whatever the registry and
  its options hold; for an ID other than 0 that the map does not hold the call fails with
  \<^verbatim>\<open>ErrInvalidDataKeyID\<close> (wrapped with the ID); otherwise, for an ID other than 0 that
  the map holds, it returns the stored key.
\<close>

theorem dataKey_cases:
  "dataKey kr 0 = Inr None
   \<and> (kid \<noteq> 0 \<and> dataKeys kr kid = None
        \<longrightarrow> dataKey kr kid = Inl (Wrapf ErrInvalidDataKeyID ''Error for the KEY ID %d''))
   \<and> (kid \<noteq> 0 \<and> dataKeys kr kid = Some dk \<longrightarrow> dataKey kr kid = Inr (Some dk))"
  by (simp add: dataKey_def)

theorem dataKey_cases_witness:
  "dataKey sample_registry 0 = Inr None
   \<and> dataKey sample_registry 3 = Inl (Wrapf ErrInvalidDataKeyID ''Error for the KEY ID %d'')
   \<and> dataKey sample_registry 7 = Inr (Some sample_key)"
  using dataKey_cases [of sample_registry 3 sample_key]
    dataKey_cases [of sample_registry 7 sample_key]
  by (simp add: sample_registry_def)

section \<open>Opening a registry that is not there, read-only\<close>

text \<open>
  Claim C10. When the registry file does not exist and the read-only flag is set,
  \<^verbatim>\<open>OpenKeyRegistry\<close> returns a registry and no error, and leaves the world (every
  file, the random source) as it was. The registry has no keys, \<^verbatim>\<open>nextKeyID\<close> 0 and
  the nil file, so that \<^verbatim>\<open>Close\<close> on it returns the error of \<^verbatim>\<open>(*os.File).Close\<close>
  on a nil file.
\<close>

theorem OpenKeyRegistry_readonly_missing:
  assumes "fs_of w (filepath_Join (Dir op) KeyRegistryFileName) = None" and "ReadOnly op"
  shows "OpenKeyRegistry L w op = ((Some (newKeyRegistry op), None), w)
         \<and> dataKeys (newKeyRegistry op) = Map.empty
         \<and> nextKeyID (newKeyRegistry op) = 0
         \<and> fp (newKeyRegistry op) = None
         \<and> fst (Close (newKeyRegistry op)) = Some ErrInvalid"
  using assms
  by (simp add: OpenKeyRegistry_def OpenExistingFile_def newKeyRegistry_def Close_def
      file_Close_def Let_def)

theorem OpenKeyRegistry_readonly_missing_witness:
  "OpenKeyRegistry sample_lib sample_world (sample_Options\<lparr>ReadOnly := True\<rparr>)
     = ((Some (newKeyRegistry (sample_Options\<lparr>ReadOnly := True\<rparr>)), None), sample_world)
   \<and> fst (Close (newKeyRegistry (sample_Options\<lparr>ReadOnly := True\<rparr>))) = Some ErrInvalid"
  using OpenKeyRegistry_readonly_missing
    [of sample_world "sample_Options\<lparr>ReadOnly := True\<rparr>" sample_lib]
  by (simp add: sample_world_def sample_Options_def)

section \<open>The streaming cipher\<close>

lemma XORReader_loop_out:
  assumes "wleft w = None" and "\<forall>x \<in> set rd. snd x \<noteq> RErr"
  shows "XORReader_loop ks pos bufIn bufOut rd w
           = (None, w\<lparr>wbuf := wbuf w @ reader_bytes (length bufIn) rd\<rparr>)"
  using assms
proof (induction rd arbitrary: pos bufIn bufOut w)
  case Nil
  then show ?case by (simp add: writer_Write_def)
next
  case (Cons x rd)
  obtain d e where x: "x = (d, e)" by (cases x)
  let ?n = "min (length d) (length bufIn)"
  let ?bufIn = "take ?n d @ drop ?n bufIn"
  have len: "length ?bufIn = length bufIn" by simp
  have tk: "take ?n ?bufIn = take (length bufIn) d" by (simp add: min_def)
  let ?w = "w\<lparr>wbuf := wbuf w @ take (length bufIn) d\<rparr>"
  have wr: "writer_Write w (take ?n ?bufIn) = (None, ?w)"
    using Cons.prems(1) unfolding tk by (simp add: writer_Write_def)
  have e: "e \<noteq> RErr" using Cons.prems(2) x by simp
  show ?case
  proof (cases "e = REOF")
    case True
    with wr e x show ?thesis by (simp add: Let_def del: take_append)
  next
    case False
    have "wleft ?w = None" using Cons.prems(1) by simp
    moreover have "\<forall>x \<in> set rd. snd x \<noteq> RErr" using Cons.prems(2) by simp
    ultimately have IH: "XORReader_loop ks pos' ?bufIn bufOut' rd ?w
        = (None, ?w\<lparr>wbuf := wbuf ?w @ reader_bytes (length ?bufIn) rd\<rparr>)" for pos' bufOut'
      by (rule Cons.IH)
    from False e wr x show ?thesis
      by (simp add: Let_def IH len del: take_append)
  qed
qed

text \<open>
  Claim C2 says that \<^verbatim>\<open>XORReader\<close> writes the bytes that \<^verbatim>\<open>XORBlock\<close> gives for the
  whole input. The source hands \<^verbatim>\<open>bufIn[:bytesRead]\<close> to the writer: for a key of valid
  length, a block-size IV, a reader that does not fail and a writer that accepts every
  write, what \<^verbatim>\<open>XORReader\<close> writes is the input itself, whatever the key stream is.
\<close>

theorem XORReader_writes_input:
  assumes "aes_key_ok key" and "length iv = aes_BlockSize"
    and "wleft out = None" and "\<forall>x \<in> set rd. snd x \<noteq> RErr"
  shows "XORReader L rd out key iv
           = (None, out\<lparr>wbuf := wbuf out @ reader_bytes bufferSize rd\<rparr>)"
  using assms by (simp add: XORReader_def XORReader_loop_out)

theorem XORReader_writes_input_witness:
  "XORReader sample_lib [([0], REOF)] \<lparr>wbuf = [], wleft = None\<rparr> (replicate 16 0) (replicate 16 0)
     = (None, \<lparr>wbuf = [0], wleft = None\<rparr>)
   \<and> XORBlock sample_lib [0] (replicate 16 0) (replicate 16 0) = Inr [1]"
  using XORReader_writes_input [of "replicate 16 0" "replicate 16 0" "\<lparr>wbuf = [], wleft = None\<rparr>"
      "[([0], REOF)]" sample_lib]
  by (simp add: aes_key_ok_def aes_BlockSize_def bufferSize_def XORBlock_def XORKeyStream_def
      sample_lib_def sum_list_replicate)

section \<open>Rotation\<close>

lemma file_Write_no_access:
  "no_write_access f \<Longrightarrow> file_Write fs d f b = (e, fs', f') \<Longrightarrow> e \<noteq> None \<and> fs' = fs \<and> f' = f"
  by (auto simp: file_Write_def no_write_access_def split: option.splits if_splits)

lemma latestDataKey_no_access:
  assumes "no_write_access (fp kr)" and "latestDataKey L t1 t2 w kr = ((k, e), w', kr')"
  shows "fs_of w' = fs_of w \<and> dataKeys kr' = dataKeys kr \<and> lastCreated kr' = lastCreated kr
         \<and> fp kr' = fp kr \<and> opt kr' = opt kr
         \<and> (e = None \<longrightarrow> k = None \<or> k = dataKeys kr (nextKeyID kr))"
  using assms(2) file_Write_no_access [OF assms(1)]
  by (fastforce simp: latestDataKey_def Let_def split: prod.splits if_splits)

text \<open>
  Claim C3 says that a rotation that fails before the disk append leaves the registry as it
  was. In the source \<^verbatim>\<open>kr.nextKeyID++\<close> comes before the first step that can fail:
  every call that takes the rotation path and returns an error (the IV, the key material,
  the encoding or the write failed) returns no key and leaves the map and
  \<^verbatim>\<open>lastCreated\<close> as they were, but \<^verbatim>\<open>nextKeyID\<close> one higher than before.
\<close>

theorem latestDataKey_failed_rotation:
  assumes "EncryptionKey (opt kr) \<noteq> []"
    and "\<not> time_Since t1 (lastCreated kr) < sint (EncryptionKeyRotationDuration (opt kr))"
    and "latestDataKey L t1 t2 w kr = ((r, Some e), w', kr')"
  shows "r = None \<and> dataKeys kr' = dataKeys kr \<and> lastCreated kr' = lastCreated kr
         \<and> nextKeyID kr' = nextKeyID kr + 1 \<and> nextKeyID kr' \<noteq> nextKeyID kr"
  using assms
  by (auto simp: latestDataKey_def Let_def split: prod.splits if_splits)

theorem latestDataKey_failed_rotation_witness:
  "latestDataKey sample_lib 200000000000 200000000000 (sample_world\<lparr>rnd := [None]\<rparr>) sample_registry
     = ((None, Some ErrRand), sample_world\<lparr>rnd := []\<rparr>, sample_registry\<lparr>nextKeyID := 8\<rparr>)
   \<and> nextKeyID sample_registry = 7
   \<and> dataKeys (sample_registry\<lparr>nextKeyID := 8\<rparr>) = dataKeys sample_registry"
proof -
  have c: "latestDataKey sample_lib 200000000000 200000000000 (sample_world\<lparr>rnd := [None]\<rparr>)
      sample_registry
     = ((None, Some ErrRand), sample_world\<lparr>rnd := []\<rparr>, sample_registry\<lparr>nextKeyID := 8\<rparr>)"
    by (simp add: latestDataKey_def sample_registry_def sample_Options_def sample_world_def
        time_Since_def GenerateIV_def rand_Read_def Let_def)
  have k: "EncryptionKey (opt sample_registry) \<noteq> []"
    by (simp add: sample_registry_def sample_Options_def)
  have d: "\<not> time_Since 200000000000 (lastCreated sample_registry)
      < sint (EncryptionKeyRotationDuration (opt sample_registry))"
    by (simp add: sample_registry_def sample_Options_def time_Since_def Let_def)
  from latestDataKey_failed_rotation [OF k d c] c show ?thesis
    by (simp add: sample_registry_def)
qed

lemma file_Read_no_access:
  "file_Read fs f buf = (r, f') \<Longrightarrow> no_write_access f \<Longrightarrow> no_write_access f'"
  by (auto simp: file_Read_def no_write_access_def Let_def split: option.splits if_splits)

lemma isValidRegistry_no_access:
  "isValidRegistry L fs f key = (e, f') \<Longrightarrow> no_write_access f \<Longrightarrow> no_write_access f'"
  by (auto simp: isValidRegistry_def Let_def split: prod.splits option.splits if_splits sum.splits
      dest: file_Read_no_access)

lemma Next_no_access:
  "Next L fs kri = (r, kri') \<Longrightarrow> no_write_access (it_fp kri) \<Longrightarrow> no_write_access (it_fp kri')"
  by (auto simp: Next_def Let_def split: prod.splits option.splits if_splits sum.splits
      dest: file_Read_no_access)

lemma readKeyRegistry_loop_no_access:
  "readKeyRegistry_loop L fs itr kr = (r, itr') \<Longrightarrow> no_write_access (it_fp itr)
     \<Longrightarrow> no_write_access (it_fp itr')"
proof (induction L fs itr kr arbitrary: r itr' rule: readKeyRegistry_loop.induct)
  case (1 L fs itr kr)
  obtain dk err itr1 where n: "Next L fs itr = ((dk, err), itr1)"
    by (metis surj_pair)
  have a1: "no_write_access (it_fp itr1)"
    using n "1.prems"(2) by (rule Next_no_access)
  show ?case
  proof (cases "\<exists>d. dk = Some d \<and> err = None")
    case True
    then obtain d where d: "dk = Some d" "err = None" by blast
    have "readKeyRegistry_loop L fs itr1 (replay_DataKey kr d) = (r, itr')"
      using "1.prems"(1) n d by (subst (asm) readKeyRegistry_loop.simps) simp
    then show ?thesis
      using "1.IH" [OF n [symmetric, unfolded d] refl refl refl] a1 d n
      by blast
  next
    case False
    then have "itr' = itr1"
      using "1.prems"(1) n
      by (subst (asm) readKeyRegistry_loop.simps) (auto split: option.splits)
    with a1 show ?thesis by simp
  qed
qed

lemma readKeyRegistry_loop_opt:
  "readKeyRegistry_loop L fs itr kr = ((kr', e), itr') \<Longrightarrow> opt kr' = opt kr"
proof (induction L fs itr kr arbitrary: kr' e itr' rule: readKeyRegistry_loop.induct)
  case (1 L fs itr kr)
  obtain dk err itr1 where n: "Next L fs itr = ((dk, err), itr1)"
    by (metis surj_pair)
  show ?case
  proof (cases "\<exists>d. dk = Some d \<and> err = None")
    case True
    then obtain d where d: "dk = Some d" "err = None" by blast
    have "readKeyRegistry_loop L fs itr1 (replay_DataKey kr d) = ((kr', e), itr')"
      using "1.prems"(1) n d by (subst (asm) readKeyRegistry_loop.simps) simp
    then have "opt kr' = opt (replay_DataKey kr d)"
      using "1.IH" [OF n [symmetric, unfolded d] refl refl refl] by blast
    then show ?thesis by (simp add: replay_DataKey_def Let_def)
  next
    case False
    then have "kr' = kr"
      using "1.prems"(1) n
      by (subst (asm) readKeyRegistry_loop.simps) (auto split: option.splits)
    then show ?thesis by simp
  qed
qed

lemma readKeyRegistry_cases:
  assumes "isValidRegistry L fs f (EncryptionKey op) = (e, f1)"
  shows "readKeyRegistry L fs f op =
           (case e of
              Some x \<Rightarrow> ((None, Some x), f1)
            | None \<Rightarrow>
                (case readKeyRegistry_loop L fs
                        \<lparr>encryptionKey = EncryptionKey op, it_fp = f1, lenCrcBuf = replicate 8 0\<rparr>
                        (newKeyRegistry op) of
                   ((kr, err), itr') \<Rightarrow> ((Some kr, err), it_fp itr')))"
  using assms by (simp add: readKeyRegistry_def newKeyRegistryIterator_def split: option.splits)

lemma readKeyRegistry_no_access:
  assumes "readKeyRegistry L fs f op = (r, f')" and "no_write_access f"
  shows "no_write_access f'"
proof -
  obtain e f1 where v: "isValidRegistry L fs f (EncryptionKey op) = (e, f1)"
    by (metis surj_pair)
  have f1: "no_write_access f1"
    using v assms(2) by (rule isValidRegistry_no_access)
  let ?itr = "\<lparr>encryptionKey = EncryptionKey op, it_fp = f1, lenCrcBuf = replicate 8 0\<rparr>"
  show ?thesis
  proof (cases e)
    case (Some x)
    with assms(1) f1 show ?thesis by (simp add: readKeyRegistry_cases [OF v])
  next
    case None
    obtain kr err itr' where l: "readKeyRegistry_loop L fs ?itr (newKeyRegistry op) = ((kr, err), itr')"
      by (metis surj_pair)
    have "no_write_access (it_fp itr')"
      using readKeyRegistry_loop_no_access [OF l] f1 by simp
    with assms(1) None l show ?thesis by (simp add: readKeyRegistry_cases [OF v])
  qed
qed

lemma readKeyRegistry_opt:
  assumes "readKeyRegistry L fs f op = ((Some kr, e), f')"
  shows "opt kr = op"
proof -
  obtain e1 f1 where v: "isValidRegistry L fs f (EncryptionKey op) = (e1, f1)"
    by (metis surj_pair)
  let ?itr = "\<lparr>encryptionKey = EncryptionKey op, it_fp = f1, lenCrcBuf = replicate 8 0\<rparr>"
  obtain kr1 err itr' where l: "readKeyRegistry_loop L fs ?itr (newKeyRegistry op) = ((kr1, err), itr')"
    by (metis surj_pair)
  from l have "opt kr1 = opt (newKeyRegistry op)" by (rule readKeyRegistry_loop_opt)
  then have "opt kr1 = op" by (simp add: newKeyRegistry_def)
  with assms l show ?thesis
    by (cases e1) (simp_all add: readKeyRegistry_cases [OF v])
qed

lemma OpenKeyRegistry_readonly:
  assumes "ReadOnly op" and "OpenKeyRegistry L w op = ((Some kr, e), w')"
  shows "w' = w \<and> no_write_access (fp kr) \<and> opt kr = op"
proof (cases "fs_of w (filepath_Join (Dir op) KeyRegistryFileName)")
  case None
  with assms show ?thesis
    by (auto simp: OpenKeyRegistry_def OpenExistingFile_def newKeyRegistry_def
        no_write_access_def Let_def)
next
  case (Some c)
  let ?f = "Some \<lparr>hpath = filepath_Join (Dir op) KeyRegistryFileName, hpos = 0,
                   hwritable = False, hclosed = False\<rparr>"
  have ro: "no_write_access ?f" by (simp add: no_write_access_def)
  from assms Some have rd: "OpenKeyRegistry_read L w ?f op = ((Some kr, e), w')"
    by (simp add: OpenKeyRegistry_def OpenExistingFile_def Let_def)
  obtain r f' where rk: "readKeyRegistry L (fs_of w) ?f op = (r, f')"
    by (metis surj_pair)
  have f': "no_write_access f'" using rk ro by (rule readKeyRegistry_no_access)
  from rd rk obtain kr0 where kr: "kr = kr0\<lparr>fp := f'\<rparr>" "r = (Some kr0, None)" "w' = w"
    by (cases r; cases "fst r"; cases "snd r") (auto simp: OpenKeyRegistry_read_def)
  have "opt kr0 = op"
    using rk kr(2) by (auto dest: readKeyRegistry_opt)
  with kr f' show ?thesis by simp
qed

lemma latestDataKey_calls_no_access:
  assumes "no_write_access (fp kr)" and "latestDataKey_calls L ts w kr = (rs, w', kr')"
  shows "fs_of w' = fs_of w \<and> dataKeys kr' = dataKeys kr \<and> lastCreated kr' = lastCreated kr
         \<and> fp kr' = fp kr
         \<and> (\<forall>r \<in> set rs. snd r = None \<longrightarrow> fst r = None \<or> fst r \<in> Some ` ran (dataKeys kr))"
  using assms
proof (induction ts arbitrary: w kr rs)
  case Nil
  then show ?case by simp
next
  case (Cons t ts)
  obtain t1 t2 where t: "t = (t1, t2)" by (cases t)
  obtain k e w1 kr1 where c: "latestDataKey L t1 t2 w kr = ((k, e), w1, kr1)"
    by (metis surj_pair)
  obtain rs1 where rest: "latestDataKey_calls L ts w1 kr1 = (rs1, w', kr')"
    and rs: "rs = (k, e) # rs1"
    using Cons.prems(2) t c by (auto split: prod.splits)
  note one = latestDataKey_no_access [OF Cons.prems(1) c]
  then have ro: "no_write_access (fp kr1)" using Cons.prems(1) by simp
  note IH = Cons.IH [OF ro rest]
  have hd: "e = None \<longrightarrow> k = None \<or> k \<in> Some ` ran (dataKeys kr)"
    using one by (cases "dataKeys kr (nextKeyID kr)") (auto simp: ran_def)
  show ?case using one IH hd rs by auto
qed

lemma latestDataKey_no_access_due:
  assumes "no_write_access (fp kr)" and "latestDataKey L t1 t2 w kr = ((k, e), w', kr')"
    and "EncryptionKey (opt kr) \<noteq> []"
    and "\<not> time_Since t1 (lastCreated kr) < sint (EncryptionKeyRotationDuration (opt kr))"
  shows "e \<noteq> None"
  using assms(2-4) file_Write_no_access [OF assms(1)]
  by (fastforce simp: latestDataKey_def Let_def split: prod.splits if_splits)

lemma latestDataKey_calls_no_access2:
  assumes "no_write_access (fp kr)" and "latestDataKey_calls L ts w kr = (rs, w', kr')"
  shows "length rs = length ts
         \<and> (\<forall>i < length ts.
               EncryptionKey (opt kr) \<noteq> []
               \<and> \<not> time_Since (fst (ts ! i)) (lastCreated kr)
                     < sint (EncryptionKeyRotationDuration (opt kr))
               \<longrightarrow> snd (rs ! i) \<noteq> None)"
  using assms
proof (induction ts arbitrary: w kr rs)
  case Nil
  then show ?case by simp
next
  case (Cons t ts)
  obtain t1 t2 where t: "t = (t1, t2)" by (cases t)
  obtain k e w1 kr1 where c: "latestDataKey L t1 t2 w kr = ((k, e), w1, kr1)"
    by (metis surj_pair)
  obtain rs1 where rest: "latestDataKey_calls L ts w1 kr1 = (rs1, w', kr')"
    and rs: "rs = (k, e) # rs1"
    using Cons.prems(2) t c by (auto split: prod.splits)
  note one = latestDataKey_no_access [OF Cons.prems(1) c]
  then have ro: "no_write_access (fp kr1)" using Cons.prems(1) by simp
  note IH = Cons.IH [OF ro rest]
  have same: "opt kr1 = opt kr" "lastCreated kr1 = lastCreated kr" using one by simp_all
  have hd: "EncryptionKey (opt kr) \<noteq> []
      \<and> \<not> time_Since t1 (lastCreated kr) < sint (EncryptionKeyRotationDuration (opt kr))
      \<longrightarrow> e \<noteq> None"
    using latestDataKey_no_access_due [OF Cons.prems(1) c] by blast
  show ?case
  proof (intro conjI allI impI)
    show "length rs = length (t # ts)" using IH rs by simp
  next
    fix i assume i: "i < length (t # ts)"
      and due: "EncryptionKey (opt kr) \<noteq> []
        \<and> \<not> time_Since (fst ((t # ts) ! i)) (lastCreated kr)
              < sint (EncryptionKeyRotationDuration (opt kr))"
    show "snd (rs ! i) \<noteq> None"
    proof (cases i)
      case 0
      with due hd t rs show ?thesis by simp
    next
      case (Suc j)
      with i due IH same rs show ?thesis by simp
    qed
  qed
qed

text \<open>
  Claim C5, as the code has it. \<^verbatim>\<open>latestDataKey\<close> does not look at the read-only
  flag; what stops a rotation is the file: a registry opened read-only has the nil file or
  one without write access, and the append fails. For every sequence of calls on a registry
  opened read-only: the files, the key map and \<^verbatim>\<open>lastCreated\<close> stay as they were after
  opening; a call that returns no error returns nil or a key the map already held; and a
  call made when a rotation is due returns an error.
\<close>

theorem readonly_never_completes_rotation:
  assumes "ReadOnly op" and "OpenKeyRegistry L w op = ((Some kr, e), w0)"
    and "latestDataKey_calls L ts w0 kr = (rs, w', kr')"
  shows "fs_of w' = fs_of w \<and> dataKeys kr' = dataKeys kr \<and> lastCreated kr' = lastCreated kr
         \<and> length rs = length ts
         \<and> (\<forall>r \<in> set rs. snd r = None \<longrightarrow> fst r = None \<or> fst r \<in> Some ` ran (dataKeys kr))
         \<and> (\<forall>i < length ts.
               EncryptionKey op \<noteq> []
               \<and> \<not> time_Since (fst (ts ! i)) (lastCreated kr)
                     < sint (EncryptionKeyRotationDuration op)
               \<longrightarrow> snd (rs ! i) \<noteq> None)"
proof -
  from OpenKeyRegistry_readonly [OF assms(1,2)]
  have w0: "w0 = w" and ro: "no_write_access (fp kr)" and op: "opt kr = op" by simp_all
  from latestDataKey_calls_no_access [OF ro assms(3)]
    latestDataKey_calls_no_access2 [OF ro assms(3)] w0 op
  show ?thesis by simp
qed

lemma readonly_rotation_run:
  "OpenKeyRegistry sample_lib readonly_world readonly_Options
       = ((Some (newKeyRegistry readonly_Options), None), readonly_world)
   \<and> latestDataKey sample_lib 200000000000 200000000000 readonly_world
         (newKeyRegistry readonly_Options)
       = ((None, Some ErrInvalid), readonly_world\<lparr>rnd := []\<rparr>,
          (newKeyRegistry readonly_Options)\<lparr>nextKeyID := 1\<rparr>)"
  by (simp add: readonly_Options_def readonly_world_def sample_Options_def OpenKeyRegistry_def
      OpenExistingFile_def newKeyRegistry_def latestDataKey_def time_Since_def GenerateIV_def
      rand_Read_def aes_BlockSize_def storeDataKey_def xor_DataKey_def XORBlock_def aes_key_ok_def
      sample_lib_def sample_Marshal_def file_Write_def Let_def)

text \<open>
  Claim C5 as stated fails: on a registry opened read-only where no file exists, with a
  storage key and a rotation due, one call of \<^verbatim>\<open>latestDataKey\<close> draws the IV and the key
  material from the random source and changes \<^verbatim>\<open>nextKeyID\<close> from 0 to 1.
\<close>

theorem readonly_rotation_counterexample:
  "ReadOnly readonly_Options
   \<and> OpenKeyRegistry sample_lib readonly_world readonly_Options
       = ((Some (newKeyRegistry readonly_Options), None), readonly_world)
   \<and> latestDataKey sample_lib 200000000000 200000000000 readonly_world
         (newKeyRegistry readonly_Options)
       = ((None, Some ErrInvalid), readonly_world\<lparr>rnd := []\<rparr>,
          (newKeyRegistry readonly_Options)\<lparr>nextKeyID := 1\<rparr>)
   \<and> nextKeyID (newKeyRegistry readonly_Options) = 0
   \<and> rnd readonly_world \<noteq> []"
  using readonly_rotation_run
  by (simp add: readonly_Options_def readonly_world_def newKeyRegistry_def)

theorem readonly_never_completes_rotation_witness:
  "latestDataKey_calls sample_lib [(200000000000, 200000000000)] readonly_world
       (newKeyRegistry readonly_Options)
     = ([(None, Some ErrInvalid)], readonly_world\<lparr>rnd := []\<rparr>,
        (newKeyRegistry readonly_Options)\<lparr>nextKeyID := 1\<rparr>)
   \<and> fs_of (readonly_world\<lparr>rnd := []\<rparr>) = fs_of readonly_world
   \<and> dataKeys ((newKeyRegistry readonly_Options)\<lparr>nextKeyID := 1\<rparr>)
       = dataKeys (newKeyRegistry readonly_Options)
   \<and> snd ([(None :: DataKey option, Some ErrInvalid)] ! 0) \<noteq> None"
proof -
  have h1: "ReadOnly readonly_Options"
    by (simp add: readonly_Options_def)
  have h2: "OpenKeyRegistry sample_lib readonly_world readonly_Options
       = ((Some (newKeyRegistry readonly_Options), None), readonly_world)"
    using readonly_rotation_run by simp
  have h3: "latestDataKey_calls sample_lib [(200000000000, 200000000000)] readonly_world
       (newKeyRegistry readonly_Options)
     = ([(None, Some ErrInvalid)], readonly_world\<lparr>rnd := []\<rparr>,
        (newKeyRegistry readonly_Options)\<lparr>nextKeyID := 1\<rparr>)"
    using readonly_rotation_run by simp
  from readonly_never_completes_rotation [OF h1 h2 h3] h3 show ?thesis
    by simp
qed

lemma xor_DataKey_fields:
  "xor_DataKey L key k = (e, k')
     \<Longrightarrow> KeyId k' = KeyId k \<and> Iv k' = Iv k \<and> CreatedAt k' = CreatedAt k"
  by (auto simp: xor_DataKey_def split: if_splits sum.splits)

lemma storeDataKey_fields:
  "storeDataKey L buf key k = (e, buf', k')
     \<Longrightarrow> KeyId k' = KeyId k \<and> Iv k' = Iv k \<and> CreatedAt k' = CreatedAt k"
  by (auto simp: storeDataKey_def Let_def split: prod.splits option.splits sum.splits
      dest!: xor_DataKey_fields)

lemma latestDataKey_current:
  assumes "EncryptionKey (opt kr) \<noteq> []"
    and "latestDataKey L t1 t2 w kr = ((Some dk, None), w', kr')"
    and "\<forall>d. dataKeys kr (nextKeyID kr) = Some d \<longrightarrow> KeyId d \<le> nextKeyID kr"
  shows "dataKeys kr' (nextKeyID kr') = Some dk \<and> KeyId dk \<le> nextKeyID kr' \<and> opt kr' = opt kr"
  using assms
  by (auto simp: latestDataKey_def Let_def split: prod.splits if_splits
      dest!: storeDataKey_fields)

lemma latestDataKey_within:
  assumes "EncryptionKey (opt kr) \<noteq> []"
    and "time_Since t1 (lastCreated kr) < sint (EncryptionKeyRotationDuration (opt kr))"
  shows "latestDataKey L t1 t2 w kr = ((dataKeys kr (nextKeyID kr), None), w, kr)"
  using assms by (simp add: latestDataKey_def Let_def)

lemma latestDataKey_rotated:
  assumes "EncryptionKey (opt kr) \<noteq> []"
    and "\<not> time_Since t1 (lastCreated kr) < sint (EncryptionKeyRotationDuration (opt kr))"
    and "latestDataKey L t1 t2 w kr = ((Some dk, None), w', kr')"
  shows "KeyId dk = nextKeyID kr + 1"
  using assms
  by (auto simp: latestDataKey_def Let_def split: prod.splits if_splits
      dest!: storeDataKey_fields)

text \<open>
  Claim C7. With a storage key: after a call that returned a key, a call made while less
  than the rotation period has passed since \<^verbatim>\<open>lastCreated\<close> returns the same key and
  changes nothing, and a call made once the period has passed that returns a key returns
  one with a strictly greater ID. The registry is one whose current key has an ID of at
  most \<^verbatim>\<open>nextKeyID\<close>, and \<^verbatim>\<open>nextKeyID\<close> is below the largest \<^verbatim>\<open>uint64\<close>.
\<close>

theorem rotation_gate:
  assumes key: "EncryptionKey (opt kr) \<noteq> []"
    and inv: "\<forall>d. dataKeys kr (nextKeyID kr) = Some d \<longrightarrow> KeyId d \<le> nextKeyID kr"
    and c1: "latestDataKey L t1 t1' w kr = ((Some dk1, None), w1, kr1)"
    and within: "time_Since t2 (lastCreated kr1) < sint (EncryptionKeyRotationDuration (opt kr1))"
    and elapsed: "\<not> time_Since t3 (lastCreated kr1) < sint (EncryptionKeyRotationDuration (opt kr1))"
    and c3: "latestDataKey L t3 t3' w1 kr1 = ((Some dk3, None), w3, kr3)"
    and noov: "nextKeyID kr1 \<noteq> - 1"
  shows "latestDataKey L t2 t2' w1 kr1 = ((Some dk1, None), w1, kr1)
         \<and> KeyId dk1 < KeyId dk3"
proof -
  from latestDataKey_current [OF key c1 inv]
  have cur: "dataKeys kr1 (nextKeyID kr1) = Some dk1" and le: "KeyId dk1 \<le> nextKeyID kr1"
    and op: "opt kr1 = opt kr" by simp_all
  have key1: "EncryptionKey (opt kr1) \<noteq> []" using key op by simp
  have c2: "latestDataKey L t2 t2' w1 kr1 = ((Some dk1, None), w1, kr1)"
    using latestDataKey_within [OF key1 within] cur by simp
  have "KeyId dk3 = nextKeyID kr1 + 1"
    using latestDataKey_rotated [OF key1 elapsed c3] .
  moreover have "nextKeyID kr1 < nextKeyID kr1 + 1"
    using noov by (simp add: inc_less_eq_self_iff_eq flip: not_le)
  ultimately show ?thesis using c2 le by simp
qed

lemmas run_defs =
  rotation_world_def rotation_registry_def sample_Options_def latestDataKey_def time_Since_def
  time_Unix_def GenerateIV_def rand_Read_def aes_BlockSize_def storeDataKey_def xor_DataKey_def
  XORBlock_def aes_key_ok_def sample_lib_def sample_Marshal_def file_Write_def file_bytes_def
  Let_def

theorem rotation_gate_witness:
  "KeyId (the (fst (fst (latestDataKey sample_lib 1000000000000 1000000000000
        rotation_world rotation_registry)))) = 1
   \<and> KeyId (the (fst (fst (latestDataKey sample_lib 1005000000000 1005000000000
        (fst (snd (latestDataKey sample_lib 1000000000000 1000000000000
            rotation_world rotation_registry)))
        (snd (snd (latestDataKey sample_lib 1000000000000 1000000000000
            rotation_world rotation_registry))))))) = 1
   \<and> KeyId (the (fst (fst (latestDataKey sample_lib 1011000000000 1011000000000
        (fst (snd (latestDataKey sample_lib 1000000000000 1000000000000
            rotation_world rotation_registry)))
        (snd (snd (latestDataKey sample_lib 1000000000000 1000000000000
            rotation_world rotation_registry))))))) = 2"
proof -
  let ?c1 = "latestDataKey sample_lib 1000000000000 1000000000000 rotation_world rotation_registry"
  let ?w1 = "fst (snd ?c1)"
  let ?kr1 = "snd (snd ?c1)"
  let ?c3 = "latestDataKey sample_lib 1011000000000 1011000000000 ?w1 ?kr1"
  let ?dk1 = "\<lparr>KeyId = 1, Data = replicate 16 2, Iv = replicate 16 1, CreatedAt = 1000\<rparr>"
  let ?dk3 = "\<lparr>KeyId = 2, Data = replicate 16 4, Iv = replicate 16 3, CreatedAt = 1011\<rparr>"
  have r1: "fst ?c1 = (Some ?dk1, None)"
    by (simp add: run_defs)
  have k1: "lastCreated ?kr1 = 1000" "opt ?kr1 = sample_Options" "nextKeyID ?kr1 = 1"
    by (simp_all add: run_defs)
  have r3: "fst ?c3 = (Some ?dk3, None)"
    by (simp add: run_defs)
  have key: "EncryptionKey (opt rotation_registry) \<noteq> []"
    by (simp add: rotation_registry_def sample_Options_def)
  have inv: "\<forall>d. dataKeys rotation_registry (nextKeyID rotation_registry) = Some d
      \<longrightarrow> KeyId d \<le> nextKeyID rotation_registry"
    by (simp add: rotation_registry_def)
  have c1: "?c1 = ((Some ?dk1, None), ?w1, ?kr1)"
    using r1 by (simp add: prod_eq_iff)
  have c3: "?c3 = ((Some ?dk3, None), fst (snd ?c3), snd (snd ?c3))"
    using r3 by (simp add: prod_eq_iff)
  have within: "time_Since 1005000000000 (lastCreated ?kr1)
      < sint (EncryptionKeyRotationDuration (opt ?kr1))"
    unfolding k1 by (simp add: time_Since_def sample_Options_def)
  have elapsed: "\<not> time_Since 1011000000000 (lastCreated ?kr1)
      < sint (EncryptionKeyRotationDuration (opt ?kr1))"
    unfolding k1 by (simp add: time_Since_def sample_Options_def)
  have noov: "nextKeyID ?kr1 \<noteq> - 1"
    unfolding k1 by simp
  from rotation_gate [OF key inv c1 within elapsed c3 noov, of 1005000000000]
  show ?thesis using r1 r3 by simp
qed

section \<open>Loading the registry file\<close>

lemmas read_defs =
  readKeyRegistry_def newKeyRegistryIterator_def isValidRegistry_def file_Read_def file_bytes_def
  Next_def isEOF_def arr8_def Uint32_def replay_DataKey_def newKeyRegistry_def sample_lib_def
  aes_BlockSize_def Let_def

text \<open>
  Claim C1 says that after loading every decoded key is in the map under its own ID. The
  loop stores each key under \<^verbatim>\<open>kr.nextKeyID\<close>, the largest ID seen so far. On a file
  without storage key whose two records have the IDs 2 and then 1, the registry ends with
  \<^verbatim>\<open>nextKeyID\<close> 2 and \<^verbatim>\<open>lastCreated\<close> 6, the largest of each, but with one entry:
  under ID 2, the key whose ID is 1. The key with ID 2 is gone, and \<^verbatim>\<open>dataKey(1)\<close>
  fails.
\<close>

theorem readKeyRegistry_overwrites_larger_id:
  "fst (readKeyRegistry sample_lib [''db/KEYREGISTRY'' \<mapsto> two_record_file]
          (Some registry_handle) plain_Options)
     = (Some \<lparr>dataKeys = [2 \<mapsto> \<lparr>KeyId = 1, Data = [], Iv = [], CreatedAt = 6\<rparr>],
              lastCreated = 6, nextKeyID = 2, fp = None, opt = plain_Options\<rparr>, None)
   \<and> dataKey \<lparr>dataKeys = [2 \<mapsto> \<lparr>KeyId = 1, Data = [], Iv = [], CreatedAt = 6\<rparr>],
               lastCreated = 6, nextKeyID = 2, fp = None, opt = plain_Options\<rparr> 1
       = Inl (Wrapf ErrInvalidDataKeyID ''Error for the KEY ID %d'')
   \<and> dataKey \<lparr>dataKeys = [2 \<mapsto> \<lparr>KeyId = 1, Data = [], Iv = [], CreatedAt = 6\<rparr>],
               lastCreated = 6, nextKeyID = 2, fp = None, opt = plain_Options\<rparr> 2
       = Inr (Some \<lparr>KeyId = 1, Data = [], Iv = [], CreatedAt = 6\<rparr>)"
  by (simp add: read_defs readKeyRegistry_loop.simps two_record_file_def registry_handle_def
      plain_Options_def sanityText_def dataKey_def)

section \<open>The iterator at the end of the file\<close>

lemma file_Read_avail:
  assumes "\<not> hclosed h" and "buf \<noteq> []" and "drop (hpos h) (file_bytes fs h) = avail"
  shows "file_Read fs (Some h) buf =
           (if avail = [] then ((buf, 0, Some EOF), Some h)
            else ((take (length buf) avail @ drop (length avail) buf,
                   min (length buf) (length avail), None),
                  Some (h\<lparr>hpos := hpos h + min (length buf) (length avail)\<rparr>)))"
  using assms by (auto simp: file_Read_def Let_def min_def)

lemma length_arr8: "length (arr8 b) = 8"
  by (simp add: arr8_def)

lemma file_bytes_hpos: "file_bytes fs (h\<lparr>hpos := n\<rparr>) = file_bytes fs h"
  by (simp add: file_bytes_def)

text \<open>
  Claim C4, as the code has it. \<^verbatim>\<open>Next\<close> does not look at the number of bytes a read
  returned, and it turns \<^verbatim>\<open>io.EOF\<close> into nil after the read of the payload as after
  the read of the header. With \<open>avail\<close> the bytes left in the file:
  \<^item> none left: a clean end (no key, no error);
  \<^item> at most 8 left, and the length field of the header buffer, filled as far as the bytes
    go, is not 0: the read of the payload meets the end of the file, and the result is a
    clean end as well;
  \<^item> the header and a part of the payload left: the missing bytes stay zero, and the call
    fails with \<^verbatim>\<open>errBadChecksum\<close> when the checksum of the padded payload is not the
    header's.
\<close>

theorem Next_at_end_of_file:
  assumes "it_fp kri = Some h" and "\<not> hclosed h"
    and "drop (hpos h) (file_bytes fs h) = avail"
  shows "(avail = [] \<longrightarrow> fst (Next L fs kri) = (None, None))
       \<and> (avail \<noteq> [] \<and> length avail \<le> 8
            \<and> Uint32 (take 4 (avail @ drop (length avail) (arr8 (lenCrcBuf kri)))) \<noteq> 0
          \<longrightarrow> fst (Next L fs kri) = (None, None))
       \<and> (8 < length avail \<and> length avail < 8 + unat (Uint32 (take 4 avail))
            \<and> crc32c L (drop 8 avail
                          @ replicate (8 + unat (Uint32 (take 4 avail)) - length avail) 0)
                \<noteq> Uint32 (take 4 (drop 4 avail))
          \<longrightarrow> fst (Next L fs kri) = (None, Some errBadChecksum))"
proof (intro conjI impI)
  have ne: "arr8 (lenCrcBuf kri) \<noteq> []" by (simp add: arr8_def)
  note rd = file_Read_avail [OF assms(2) ne assms(3)]
  {
    assume "avail = []"
    then show "fst (Next L fs kri) = (None, None)"
      using rd assms(1) by (simp add: Next_def isEOF_def)
  }
  {
    assume a: "avail \<noteq> [] \<and> length avail \<le> 8
      \<and> Uint32 (take 4 (avail @ drop (length avail) (arr8 (lenCrcBuf kri)))) \<noteq> 0"
    let ?hdr = "avail @ drop (length avail) (arr8 (lenCrcBuf kri))"
    let ?h1 = "h\<lparr>hpos := hpos h + length avail\<rparr>"
    have r1: "file_Read fs (Some h) (arr8 (lenCrcBuf kri)) = ((?hdr, length avail, None), Some ?h1)"
      using rd a by (simp add: length_arr8 min_def)
    let ?l = "unat (Uint32 (take 4 ?hdr))"
    have l: "replicate ?l (0 :: byte) \<noteq> []"
      using a by (simp add: unat_eq_zero)
    have "length avail = length (file_bytes fs h) - hpos h"
      using assms(3) by auto
    then have d: "drop (hpos ?h1) (file_bytes fs ?h1) = []"
      by (simp add: file_bytes_hpos)
    have c: "\<not> hclosed ?h1" using assms(2) by simp
    have r2: "file_Read fs (Some ?h1) (replicate ?l 0) = ((replicate ?l 0, 0, Some EOF), Some ?h1)"
      using file_Read_avail [OF c l d] by simp
    show "fst (Next L fs kri) = (None, None)"
      using assms(1) r1 r2 by (simp add: Next_def isEOF_def Let_def)
  }
  {
    assume a: "8 < length avail \<and> length avail < 8 + unat (Uint32 (take 4 avail))
      \<and> crc32c L (drop 8 avail @ replicate (8 + unat (Uint32 (take 4 avail)) - length avail) 0)
          \<noteq> Uint32 (take 4 (drop 4 avail))"
    then have a1: "8 < length avail" and a2: "length avail < 8 + unat (Uint32 (take 4 avail))"
      by simp_all
    let ?hdr = "take 8 avail"
    let ?h1 = "h\<lparr>hpos := hpos h + 8\<rparr>"
    have an: "avail \<noteq> []" using a by auto
    have r1: "file_Read fs (Some h) (arr8 (lenCrcBuf kri)) = ((?hdr, 8, None), Some ?h1)"
      using rd a an by (simp add: length_arr8 min_def)
    let ?l = "unat (Uint32 (take 4 avail))"
    have t4: "take 4 ?hdr = take 4 avail" by (simp add: min_def)
    have d4: "drop 4 ?hdr = take 4 (drop 4 avail)" by (simp add: drop_take)
    have l: "replicate ?l (0 :: byte) \<noteq> []"
      using a by auto
    have "drop (hpos h + 8) (file_bytes fs h) = drop 8 (drop (hpos h) (file_bytes fs h))"
      by (simp add: add.commute)
    then have d: "drop (hpos ?h1) (file_bytes fs ?h1) = drop 8 avail"
      using assms(3) by (simp add: file_bytes_hpos)
    have c: "\<not> hclosed ?h1" using assms(2) by simp
    have dn: "drop 8 avail \<noteq> []" using a by simp
    let ?data = "drop 8 avail @ replicate (8 + ?l - length avail) 0"
    have r2: "file_Read fs (Some ?h1) (replicate ?l 0)
        = ((?data, length avail - 8, None), Some (?h1\<lparr>hpos := hpos ?h1 + (length avail - 8)\<rparr>))"
    proof -
      have m: "min ?l (length avail - 8) = length avail - 8"
        and t: "take ?l (drop 8 avail) = drop 8 avail"
        and e: "?l - (length avail - 8) = 8 + ?l - length avail"
        using a1 a2 by auto
      show ?thesis
        using file_Read_avail [OF c l d] dn by (simp add: m t e)
    qed
    show "fst (Next L fs kri) = (None, Some errBadChecksum)"
      using assms(1) r1 r2 a by (simp add: Next_def isEOF_def Let_def t4 d4)
  }
qed

lemmas next_defs =
  Next_def file_Read_def file_bytes_def isEOF_def arr8_def Uint32_def sample_lib_def
  end_iterator_def registry_handle_def two_record_file_def sanityText_def Let_def

text \<open>
  Claim C4 as stated fails: after the two records of the file, three more bytes (the start
  of a header) or eight more (a whole header announcing three bytes of payload) give a
  clean end (no key, no error) and no truncation error.
\<close>

theorem Next_truncation_counterexample:
  "fst (Next sample_lib [''db/KEYREGISTRY'' \<mapsto> two_record_file @ [0, 0, 1]] end_iterator)
     = (None, None)
   \<and> fst (Next sample_lib [''db/KEYREGISTRY'' \<mapsto> two_record_file @ [0, 0, 0, 3, 0, 0, 0, 7]]
            end_iterator)
     = (None, None)"
  by (simp add: next_defs)

theorem Next_at_end_of_file_witness:
  "fst (Next sample_lib [''db/KEYREGISTRY'' \<mapsto> two_record_file] end_iterator) = (None, None)
   \<and> fst (Next sample_lib [''db/KEYREGISTRY'' \<mapsto> two_record_file @ [0, 0, 1]] end_iterator)
     = (None, None)
   \<and> fst (Next sample_lib [''db/KEYREGISTRY'' \<mapsto> two_record_file @ [0, 0, 0, 3, 0, 0, 0, 7, 1]]
            end_iterator)
     = (None, Some errBadChecksum)"
proof -
  let ?h = "registry_handle\<lparr>hpos := 50\<rparr>"
  have h: "it_fp end_iterator = Some ?h" "\<not> hclosed ?h"
    by (simp_all add: end_iterator_def registry_handle_def)
  have len: "length two_record_file = 50"
    by (simp add: two_record_file_def sanityText_def)
  have d: "drop (hpos ?h) (file_bytes [''db/KEYREGISTRY'' \<mapsto> two_record_file @ xs] ?h) = xs" for xs
    by (simp add: file_bytes_def registry_handle_def len)
  have d0: "drop (hpos ?h) (file_bytes [''db/KEYREGISTRY'' \<mapsto> two_record_file] ?h) = []"
    by (simp add: file_bytes_def registry_handle_def len)
  from Next_at_end_of_file [OF h d0, of sample_lib]
  have 1: "fst (Next sample_lib [''db/KEYREGISTRY'' \<mapsto> two_record_file] end_iterator)
      = (None, None)"
    by simp
  from Next_at_end_of_file [OF h d, of "[0, 0, 1]" sample_lib]
  have 2: "fst (Next sample_lib [''db/KEYREGISTRY'' \<mapsto> two_record_file @ [0, 0, 1]] end_iterator)
      = (None, None)"
    by (simp add: end_iterator_def arr8_def Uint32_def)
  from Next_at_end_of_file [OF h d, of "[0, 0, 0, 3, 0, 0, 0, 7, 1]" sample_lib]
  have 3: "fst (Next sample_lib
        [''db/KEYREGISTRY'' \<mapsto> two_record_file @ [0, 0, 0, 3, 0, 0, 0, 7, 1]] end_iterator)
      = (None, Some errBadChecksum)"
    by (simp add: Uint32_def sample_lib_def sum_list_replicate)
  from 1 2 3 show ?thesis by simp
qed

section \<open>The record codec\<close>

lemma XORKeyStream_invol: "XORKeyStream ks p (XORKeyStream ks p s) = s"
  by (rule nth_equalityI) (simp_all add: XORKeyStream_def xor.assoc)

lemma xor_DataKey_twice:
  assumes "xor_DataKey L key k = (None, k1)" and "xor_DataKey L key k1 = (e, k2)"
  shows "e = None \<and> k2 = k"
  using assms
  by (auto simp: xor_DataKey_def XORBlock_def XORKeyStream_invol split: if_splits)

lemma storeDataKey_success:
  assumes "storeDataKey L buf key k = (None, buf', k')"
  shows "k' = k
         \<and> (\<exists>k1 data. xor_DataKey L key k = (None, k1) \<and> pb_Marshal L k1 = Inr data
               \<and> buf' = buf @ PutUint32 (of_nat (length data)) @ PutUint32 (crc32c L data) @ data)"
proof -
  obtain e1 k1 where x: "xor_DataKey L key k = (e1, k1)" by (metis surj_pair)
  with assms have e1: "e1 = None"
    by (cases e1) (simp_all add: storeDataKey_def)
  obtain data where m: "pb_Marshal L k1 = Inr data"
    using assms x e1 by (cases "pb_Marshal L k1") (simp_all add: storeDataKey_def)
  obtain e2 k2 where x2: "xor_DataKey L key k1 = (e2, k2)" by (metis surj_pair)
  from xor_DataKey_twice [OF x [unfolded e1] x2] have k2: "k2 = k" by simp
  from assms x e1 m x2 k2 show ?thesis
    by (simp add: storeDataKey_def Let_def)
qed

text \<open>
  Claim C9 says that the key material in memory is the plaintext after every return of
  \<^verbatim>\<open>storeDataKey\<close>, failed or not. When \<^verbatim>\<open>k.Marshal()\<close> fails the source returns
  before the second \<^verbatim>\<open>xor()\<close>: with a storage key of valid length and a block-size IV,
  the call returns the error, writes nothing, and leaves the key material encrypted.
\<close>

theorem storeDataKey_failure_keeps_ciphertext:
  assumes "aes_key_ok key" and "length (Iv k) = aes_BlockSize"
    and "pb_Marshal L (k\<lparr>Data := XORKeyStream (keystream L key (Iv k)) 0 (Data k)\<rparr>) = Inl e"
  shows "storeDataKey L buf key k
           = (Some e, buf, k\<lparr>Data := XORKeyStream (keystream L key (Iv k)) 0 (Data k)\<rparr>)"
proof -
  have "key \<noteq> []" using assms(1) by (auto simp: aes_key_ok_def)
  then show ?thesis
    using assms by (simp add: storeDataKey_def xor_DataKey_def XORBlock_def)
qed

theorem storeDataKey_failure_keeps_ciphertext_witness:
  "storeDataKey (sample_lib\<lparr>pb_Marshal := \<lambda>k. Inl ErrMarshal\<rparr>) [] (replicate 16 0) sample_key
     = (Some ErrMarshal, [], sample_key\<lparr>Data := [144, 144, 144]\<rparr>)
   \<and> Data sample_key = [1, 2, 3]"
proof -
  let ?L = "sample_lib\<lparr>pb_Marshal := \<lambda>k. Inl ErrMarshal\<rparr>"
  have x: "XORKeyStream (keystream ?L (replicate 16 0) (Iv sample_key)) 0 (Data sample_key)
      = [144, 144, 144]"
    by (simp add: XORKeyStream_def sample_lib_def sample_key_def sum_list_replicate upt_rec)
  have a: "aes_key_ok (replicate 16 0)" "length (Iv sample_key) = aes_BlockSize"
    by (simp_all add: aes_key_ok_def sample_key_def aes_BlockSize_def)
  have m: "pb_Marshal ?L (sample_key\<lparr>Data := XORKeyStream (keystream ?L (replicate 16 0)
      (Iv sample_key)) 0 (Data sample_key)\<rparr>) = Inl ErrMarshal"
    by simp
  from storeDataKey_failure_keeps_ciphertext [OF a m, of "[]"] x show ?thesis
    by (simp add: sample_key_def)
qed

lemma Uint32_PutUint32: "Uint32 (PutUint32 v) = v"
proof (rule bit_word_eqI)
  fix n assume "n < LENGTH(32)"
  then have n: "n < 32" by simp
  consider "n < 8" | "8 \<le> n" "n < 16" | "16 \<le> n" "n < 24" | "24 \<le> n" "n < 32"
    using n by linarith
  then show "bit (Uint32 (PutUint32 v)) n = bit v n"
    by cases (auto simp add: Uint32_def PutUint32_def bit_simps le_add_diff_inverse)
qed

lemma length_PutUint32: "length (PutUint32 v) = 4"
  by (simp add: PutUint32_def)

lemma file_Read_exact:
  assumes "\<not> hclosed h" and "drop (hpos h) (file_bytes fs h) = xs @ rest"
    and "length buf = length xs"
  shows "file_Read fs (Some h) buf = ((xs, length xs, None), Some (h\<lparr>hpos := hpos h + length xs\<rparr>))"
proof (cases "xs = []")
  case True
  with assms show ?thesis by (simp add: file_Read_def)
next
  case False
  then have "buf \<noteq> []" using assms(3) by auto
  from file_Read_avail [OF assms(1) this assms(2)] False assms(3) show ?thesis
    by simp
qed

text \<open>
  Claim C6. When \<^verbatim>\<open>storeDataKey\<close> has encoded a key \<open>k\<close> under a storage key (empty
  or not) without error, and the file holds the bytes it produced at the offset of the
  iterator, \<^verbatim>\<open>Next\<close> with the same storage key returns \<open>k\<close>: the same key material,
  IV, ID and creation time. \<^verbatim>\<open>Unmarshal\<close> is taken to invert \<^verbatim>\<open>Marshal\<close> on the
  record as it is serialized, whose length fits the four bytes of the length field.
\<close>

theorem storeDataKey_Next_roundtrip:
  assumes st: "storeDataKey L [] key k = (None, rec, k')"
    and codec: "\<forall>k1 data. xor_DataKey L key k = (None, k1) \<and> pb_Marshal L k1 = Inr data
                  \<longrightarrow> pb_Unmarshal L data = Inr k1 \<and> length data < 2 ^ 32"
    and h: "\<not> hclosed h" "drop (hpos h) (file_bytes fs h) = rec @ rest"
  shows "Next L fs \<lparr>encryptionKey = key, it_fp = Some h, lenCrcBuf = b\<rparr>
           = ((Some k, None),
              \<lparr>encryptionKey = key, it_fp = Some (h\<lparr>hpos := hpos h + length rec\<rparr>),
               lenCrcBuf = take 8 rec\<rparr>)"
proof -
  from storeDataKey_success [OF st] obtain k1 data where
    x: "xor_DataKey L key k = (None, k1)" and m: "pb_Marshal L k1 = Inr data"
    and rec: "rec = PutUint32 (of_nat (length data)) @ PutUint32 (crc32c L data) @ data"
    by auto
  from codec x m have u: "pb_Unmarshal L data = Inr k1" and len: "length data < 2 ^ 32"
    by blast+
  let ?hdr = "PutUint32 (of_nat (length data)) @ PutUint32 (crc32c L data)"
  have lh: "length ?hdr = 8" by (simp add: length_PutUint32)
  have d1: "drop (hpos h) (file_bytes fs h) = ?hdr @ (data @ rest)"
    using h(2) rec by simp
  have r1: "file_Read fs (Some h) (arr8 b) = ((?hdr, 8, None), Some (h\<lparr>hpos := hpos h + 8\<rparr>))"
    using file_Read_exact [OF h(1) d1, of "arr8 b"] lh by (simp add: length_arr8)
  have l: "unat (Uint32 (take 4 ?hdr)) = length data"
    using len by (simp add: length_PutUint32 Uint32_PutUint32 unat_of_nat)
  have crc: "Uint32 (drop 4 ?hdr) = crc32c L data"
    by (simp add: length_PutUint32 Uint32_PutUint32)
  let ?h1 = "h\<lparr>hpos := hpos h + 8\<rparr>"
  have "drop (hpos h + 8) (file_bytes fs h) = drop 8 (drop (hpos h) (file_bytes fs h))"
    by (simp add: add.commute)
  then have d2: "drop (hpos ?h1) (file_bytes fs ?h1) = data @ rest"
    using d1 lh by (simp add: file_bytes_hpos)
  have c1: "\<not> hclosed ?h1" using h(1) by simp
  have r2: "file_Read fs (Some ?h1) (replicate (length data) 0)
      = ((data, length data, None), Some (h\<lparr>hpos := hpos h + length rec\<rparr>))"
    using file_Read_exact [OF c1 d2, of "replicate (length data) 0"] rec lh
    by (simp add: add.assoc)
  have t8: "take 8 rec = ?hdr" using rec lh by simp
  have dec: "(if length key > 0
              then (case XORBlock L (Data k1) key (Iv k1) of
                      Inl e \<Rightarrow> ((None, Some e), ())
                    | Inr d \<Rightarrow> ((Some (k1\<lparr>Data := d\<rparr>), None), ()))
              else ((Some k1, None), ())) = ((Some k, None), ())"
    using x by (auto simp: xor_DataKey_def XORBlock_def XORKeyStream_invol split: if_splits)
  show ?thesis
    using dec
    by (auto simp: Next_def r1 l r2 crc u t8 Let_def simp del: take_append drop_append
        split: if_splits sum.splits)
qed

lemmas store_defs =
  storeDataKey_def xor_DataKey_def XORBlock_def XORKeyStream_def aes_key_ok_def aes_BlockSize_def
  sample_lib_def sample_Marshal_def sample_key_def sum_list_replicate upt_rec Let_def

theorem storeDataKey_Next_roundtrip_witness:
  "storeDataKey sample_lib [] (replicate 16 0) sample_key = (None, sample_record, sample_key)
   \<and> sample_record = [0, 0, 0, 22, 0, 0, 2, 187, 7, 100, 16] @ replicate 16 9 @ [144, 144, 144]
   \<and> fst (Next sample_lib [''db/KEYREGISTRY'' \<mapsto> sample_record]
            \<lparr>encryptionKey = replicate 16 0, it_fp = Some registry_handle,
             lenCrcBuf = replicate 8 0\<rparr>)
       = (Some sample_key, None)
   \<and> storeDataKey sample_lib [] [] sample_key = (None, plain_record, sample_key)
   \<and> plain_record = [0, 0, 0, 22, 0, 0, 1, 17, 7, 100, 16] @ replicate 16 9 @ [1, 2, 3]
   \<and> fst (Next sample_lib [''db/KEYREGISTRY'' \<mapsto> plain_record]
            \<lparr>encryptionKey = [], it_fp = Some registry_handle, lenCrcBuf = replicate 8 0\<rparr>)
       = (Some sample_key, None)"
proof -
  have rec: "sample_record
      = [0, 0, 0, 22, 0, 0, 2, 187, 7, 100, 16] @ replicate 16 9 @ [144, 144, 144]"
    by (simp add: sample_record_def store_defs PutUint32_def)
  have st: "storeDataKey sample_lib [] (replicate 16 0) sample_key
      = (None, sample_record, sample_key)"
    unfolding sample_record_def by (simp add: store_defs prod_eq_iff)
  have codec: "\<forall>k1 data. xor_DataKey sample_lib (replicate 16 0) sample_key = (None, k1)
        \<and> pb_Marshal sample_lib k1 = Inr data
      \<longrightarrow> pb_Unmarshal sample_lib data = Inr k1 \<and> length data < 2 ^ 32"
    by (auto simp: store_defs)
  have h: "\<not> hclosed registry_handle"
    "drop (hpos registry_handle) (file_bytes [''db/KEYREGISTRY'' \<mapsto> sample_record] registry_handle)
       = sample_record @ []"
    by (simp_all add: registry_handle_def file_bytes_def)
  have rec': "plain_record = [0, 0, 0, 22, 0, 0, 1, 17, 7, 100, 16] @ replicate 16 9 @ [1, 2, 3]"
    by (simp add: plain_record_def store_defs PutUint32_def)
  have st': "storeDataKey sample_lib [] [] sample_key = (None, plain_record, sample_key)"
    unfolding plain_record_def by (simp add: store_defs prod_eq_iff)
  have codec': "\<forall>k1 data. xor_DataKey sample_lib [] sample_key = (None, k1)
        \<and> pb_Marshal sample_lib k1 = Inr data
      \<longrightarrow> pb_Unmarshal sample_lib data = Inr k1 \<and> length data < 2 ^ 32"
    by (auto simp: store_defs)
  have h': "drop (hpos registry_handle)
        (file_bytes [''db/KEYREGISTRY'' \<mapsto> plain_record] registry_handle)
       = plain_record @ []"
    by (simp_all add: registry_handle_def file_bytes_def)
  from storeDataKey_Next_roundtrip [OF st codec h, of "replicate 8 0"]
    storeDataKey_Next_roundtrip [OF st' codec' h(1) h', of "replicate 8 0"] st rec st' rec'
  show ?thesis by simp
qed

end
